theory Spec2Isabelle
  imports Complex_Main "HOL-Library.Multiset" "HOL-Library.Product_Lexorder"
begin

section \<open>The forecasting script \<^verbatim>\<open>arquivo.py\<close> as a function\<close>

text \<open>
  The script is one straight-line module: it loads a sheet, finds the date column, parses
  it, cleans and sorts the rows, fits a seasonal model, asks it for the months that are
  left in the year and writes the rounded forecasts into fixed cells of the workbook.

  Every call into pandas, statsmodels and openpyxl is a field of the record \<open>lib\<close>
  below; the script's own control flow (the branches, the loops, the early
  \<^verbatim>\<open>sys.exit()\<close>s, the exceptions it catches and the ones it does not) is what the
  definitions spell out. A run returns the chronological trace of what it printed and
  called, how it ended, and the file it leaves on disk.

  The file named by \<^verbatim>\<open>nome_arquivo\<close> (line 12) is the abstract disk state \<open>'d\<close>. The
  path itself is never inspected; as written, the literal is not a raw string and its
  \<^verbatim>\<open>\U\<close> is an incomplete escape for Python 3, so the development is about the script
  with a well-formed path constant.
\<close>

subsection \<open>Strings\<close>

text \<open>A Python \<^verbatim>\<open>str\<close> is a sequence of Unicode code points.\<close>

type_synonym pystr = "nat list"

definition str :: "string \<Rightarrow> pystr" where
  "str s = map of_char s"

text \<open>\<^verbatim>\<open>s.startswith(p)\<close>, and \<^verbatim>\<open>sub in s\<close> on strings: some suffix of \<open>s\<close> starts with \<open>sub\<close>.\<close>

fun startswith :: "pystr \<Rightarrow> pystr \<Rightarrow> bool" where
  "startswith s [] = True"
| "startswith [] (p # ps) = False"
| "startswith (x # xs) (p # ps) = (x = p \<and> startswith xs ps)"

fun str_contains :: "pystr \<Rightarrow> pystr \<Rightarrow> bool" where
  "str_contains [] sub = (sub = [])"
| "str_contains (x # xs) sub = (startswith (x # xs) sub \<or> str_contains xs sub)"

text \<open>
  \<^verbatim>\<open>str.lower\<close> is the interpreter's Unicode lowercasing and is a parameter of the model.
  \<open>ascii_lower\<close> is its restriction to the letters A-Z, used to run the model on
  concrete ASCII column names.
\<close>

definition ascii_lower :: "pystr \<Rightarrow> pystr" where
  "ascii_lower s = map (\<lambda>c. if 65 \<le> c \<and> c \<le> 90 then c + 32 else c) s"

subsection \<open>Values, tables and time stamps\<close>

text \<open>
  A pandas \<^verbatim>\<open>Timestamp\<close> with the fields the script and the sort read; \<open>nanos\<close> is the
  time of day. Time stamps are ordered chronologically, which for the fields is the
  lexicographic order of \<open>stamp_key\<close>.
\<close>

datatype timestamp = Timestamp (year: int) (month: int) (day: int) (nanos: int)

definition stamp_key :: "timestamp \<Rightarrow> int \<times> int \<times> int \<times> int" where
  "stamp_key t = (year t, month t, day t, nanos t)"

text \<open>A spreadsheet cell as \<^verbatim>\<open>read_excel\<close> delivers it; \<open>Blank\<close> is the missing value (NaN).\<close>

datatype cell = Blank | Number real | Text pystr | Moment timestamp

text \<open>
  The data frame after line 32 has normalised its column labels: the labels in their
  declared order, and the rows, each giving the cell under a label.
\<close>

record frame =
  columns :: "pystr list"
  rows :: "(pystr \<Rightarrow> cell) list"

definition column :: "frame \<Rightarrow> pystr \<Rightarrow> cell list" where
  "column df c = map (\<lambda>r. r c) (rows df)"

text \<open>The series \<^verbatim>\<open>y\<close>: the \<^verbatim>\<open>QNT\<close> cells indexed by the parsed date, \<open>None\<close> being \<^verbatim>\<open>NaT\<close>.\<close>

type_synonym series = "(timestamp option \<times> cell) list"

subsection \<open>The workbook\<close>

text \<open>
  An openpyxl worksheet: the values of its cells by (row, column), and the cells whose
  \<^verbatim>\<open>value\<close> cannot be assigned (the covered cells of a merged range, for which the
  assignment raises). A workbook is its sheets by title, in order.
\<close>

record sheet =
  cells :: "nat \<times> nat \<rightharpoonup> cell"
  readonly :: "(nat \<times> nat) set"

type_synonym workbook = "(pystr \<times> sheet) list"

definition empty_sheet :: sheet where
  "empty_sheet = \<lparr>cells = Map.empty, readonly = {}\<rparr>"

text \<open>
  \<^verbatim>\<open>workbook[title]\<close>: the first sheet with exactly that title and its position;
  \<open>None\<close> when \<^verbatim>\<open>title in workbook.sheetnames\<close> is false.
\<close>

fun find_sheet :: "pystr \<Rightarrow> workbook \<Rightarrow> (nat \<times> sheet) option" where
  "find_sheet n [] = None"
| "find_sheet n ((m, s) # wb) =
     (if m = n then Some (0, s)
      else (case find_sheet n wb of None \<Rightarrow> None | Some (k, t) \<Rightarrow> Some (Suc k, t)))"

subsection \<open>What a run prints, calls and how it ends\<close>

type_synonym exn = string

datatype steps = Steps int | StepsNaN

text \<open>
  An entry of \<^verbatim>\<open>previsoes_finais\<close>. Its third key, \<^verbatim>\<open>mes_nome\<close>, is the month name of
  \<^verbatim>\<open>data\<close> and is only printed; the messages below carry the date instead.
\<close>

record previsao_final =
  data :: timestamp
  previsao :: int

text \<open>One constructor per \<^verbatim>\<open>print\<close> of the script, carrying the values it interpolates.\<close>

datatype msg =
    ErroLerAba exn
  | VerifiqueArquivo
  | ColunasDetectadas "pystr list"
  | ErroSemColunaData
  | ColunasEncontradas "pystr list"
  | RenomeieColuna
  | ErroConverter pystr
  | VerifiqueFormato
  | ParserFlexivel pystr
  | Treinando
  | AlgunsSegundos
  | ModeloTreinado
  | ErroTreinar exn
  | VerifiqueDados
  | DadosCompletos
  | Calculando steps
  | PrevisaoPara timestamp int
  | Escrevendo
  | ErroDivergencia nat nat
  | AjusteLinhas
  | AvisoCriandoAba
  | ValorSalvo int timestamp nat
  | Sucesso nat
  | ErroEscrever exn
  | NaoSalvas

datatype event =
    Print msg
  | ReadExcel
  | Fit series
  | GetForecast steps
  | LoadWorkbook
  | CreateSheet pystr
  | SetCell nat nat int
  | Save workbook

text \<open>
  An uncaught exception ends the run with a traceback; \<open>Raised\<close> is one that a
  library call raised outside every \<^verbatim>\<open>try\<close>.
\<close>

datatype pyexn = NameError | KeyError | Raised exn

text \<open>
  How a run ends: at one of the six \<^verbatim>\<open>sys.exit()\<close> calls, by reaching the end of the
  script after the save (\<open>EndSaved\<close>) or after the handler of the writing block
  (\<open>EndNotSaved\<close>), or by an uncaught exception.
\<close>

datatype outcome =
    ExitReadError
  | ExitNoDateColumn
  | ExitDatesUnparseable
  | ExitFitFailed
  | ExitAlreadyComplete
  | ExitCountMismatch
  | EndSaved
  | EndNotSaved exn
  | Crash pyexn

subsection \<open>The libraries\<close>

text \<open>
  The result of parsing one value of the date column: a time stamp, the null marker
  \<^verbatim>\<open>NaT\<close> (a missing value parses to it), or a value the parser rejects.
\<close>

datatype parse = Stamp timestamp | NaT | Invalid

text \<open>
  \<^item> \<open>lower\<close>: \<^verbatim>\<open>str.lower\<close>;
  \<^item> \<open>read_excel\<close>: \<^verbatim>\<open>pd.read_excel(nome_arquivo, sheet_name=aba_dados_limpos)\<close>
    followed by the normalisation of the labels;
  \<^item> \<open>strict\<close>: how \<^verbatim>\<open>to_datetime(format='%m/%Y')\<close> reads one value;
  \<^item> \<open>lenient\<close>: how \<^verbatim>\<open>to_datetime(dayfirst=True)\<close> reads one value of a given column
    (the column is an argument, as pandas may infer the format from it);
  \<^item> \<open>fit\<close>: \<^verbatim>\<open>SARIMAX(y, ...).fit(disp=False)\<close>;
  \<^item> \<open>get_forecast\<close>: \<^verbatim>\<open>results.get_forecast(steps).predicted_mean.items()\<close>, taken
    to be indexed by dates, as the script expects;
  \<^item> \<open>load_workbook\<close>: \<^verbatim>\<open>openpyxl.load_workbook(nome_arquivo)\<close>;
  \<^item> \<open>create_sheet_title\<close>: the title \<^verbatim>\<open>workbook.create_sheet(title)\<close> gives the new
    sheet, from the titles already in the workbook and the title asked for (openpyxl
    keeps titles unique up to case and renames the new sheet on a clash);
  \<^item> \<open>save\<close>: \<^verbatim>\<open>workbook.save(nome_arquivo)\<close>, which may raise and returns the file
    it leaves.
  Predicted quantities are finite floats, read as reals: NaN and the infinities, on which
  \<^verbatim>\<open>round\<close> raises, are outside the model.
\<close>

record ('d, 'm) lib =
  lower :: "pystr \<Rightarrow> pystr"
  read_excel :: "'d \<Rightarrow> exn + frame"
  strict :: "cell \<Rightarrow> parse"
  lenient :: "cell list \<Rightarrow> cell \<Rightarrow> parse"
  fit :: "series \<Rightarrow> exn + 'm"
  get_forecast :: "'m \<Rightarrow> steps \<Rightarrow> exn + (timestamp \<times> real) list"
  load_workbook :: "'d \<Rightarrow> exn + workbook"
  create_sheet_title :: "pystr list \<Rightarrow> pystr \<Rightarrow> pystr"
  save :: "workbook \<Rightarrow> 'd \<Rightarrow> exn option \<times> 'd"

subsection \<open>Column Resolver (lines 36-49)\<close>

definition Data :: pystr where
  "Data = str ''Data''"

definition QNT :: pystr where
  "QNT = str ''QNT''"

text \<open>The test of line 41 on the lowercased label; the third substring is \<^verbatim>\<open>m\<close>, U+00EA, \<^verbatim>\<open>s\<close>.\<close>

definition heuristic :: "pystr \<Rightarrow> bool" where
  "heuristic cl \<longleftrightarrow>
     str_contains cl (str ''data'') \<or> str_contains cl (str ''mes'') \<or>
     str_contains cl [109, 234, 115] \<or> str_contains cl (str ''month'') \<or>
     str_contains cl (str ''date'')"

text \<open>The \<^verbatim>\<open>for\<close> loop of lines 39-43; \<open>None\<close>: the loop ended without assigning \<^verbatim>\<open>date_col\<close>.\<close>

fun scan_columns :: "(pystr \<Rightarrow> pystr) \<Rightarrow> pystr list \<Rightarrow> pystr option" where
  "scan_columns lw [] = None"
| "scan_columns lw (c # cs) =
     (let cl = lw c in if heuristic cl then Some c else scan_columns lw cs)"

text \<open>Lines 36-43. \<open>None\<close>: the name \<^verbatim>\<open>date_col\<close> is still unbound after them.\<close>

definition date_col :: "(pystr \<Rightarrow> pystr) \<Rightarrow> pystr list \<Rightarrow> pystr option" where
  "date_col lw cols = (if Data \<in> set cols then Some Data else scan_columns lw cols)"

subsection \<open>Date Normalizer (lines 52-63)\<close>

definition coerce :: "parse \<Rightarrow> timestamp option" where
  "coerce p = (case p of Stamp t \<Rightarrow> Some t | NaT \<Rightarrow> None | Invalid \<Rightarrow> None)"

text \<open>
  \<^verbatim>\<open>pd.to_datetime(col, format='%m/%Y', errors='raise')\<close>: the values are converted in
  order and the first one the format rejects raises.
\<close>

fun to_datetime_raise :: "(cell \<Rightarrow> parse) \<Rightarrow> cell list \<Rightarrow> exn + timestamp option list" where
  "to_datetime_raise p [] = Inr []"
| "to_datetime_raise p (v # vs) =
     (case p v of
        Invalid \<Rightarrow> Inl ''ValueError''
      | r \<Rightarrow> (case to_datetime_raise p vs of
                Inl e \<Rightarrow> Inl e
              | Inr ds \<Rightarrow> Inr (coerce r # ds)))"

text \<open>\<^verbatim>\<open>pd.to_datetime(col, dayfirst=True, errors='coerce')\<close>: a rejected value becomes \<^verbatim>\<open>NaT\<close>.\<close>

definition to_datetime_coerce :: "(cell list \<Rightarrow> cell \<Rightarrow> parse) \<Rightarrow> cell list \<Rightarrow> timestamp option list" where
  "to_datetime_coerce p col = map (\<lambda>v. coerce (p col v)) col"

text \<open>
  Lines 52-63 for the resolved column \<open>c\<close> with values \<open>col\<close>: the new \<^verbatim>\<open>Data\<close> column,
  or the exit of line 61.
\<close>

definition normalizar ::
  "('d, 'm) lib \<Rightarrow> pystr \<Rightarrow> cell list \<Rightarrow> event list \<times> (outcome + timestamp option list)" where
  "normalizar L c col =
     (case to_datetime_raise (strict L) col of
        Inr ds \<Rightarrow> ([], Inr ds)
      | Inl e \<Rightarrow>
          (let ds = to_datetime_coerce (lenient L) col in
           if list_all (\<lambda>d. d = None) ds
           then ([Print (ErroConverter c), Print VerifiqueFormato], Inl ExitDatesUnparseable)
           else ([Print (ParserFlexivel c)], Inr ds)))"

subsection \<open>Cleaner/Sorter (lines 66-76)\<close>

text \<open>
  \<^verbatim>\<open>sort_values(by='Data')\<close> sorts ascending with the null dates last. The order it
  leaves among rows of equal date depends on the sorting algorithm; the model keeps them
  in their original order, and nothing below depends on that choice.
\<close>

definition date_key :: "timestamp option \<Rightarrow> bool \<times> int \<times> int \<times> int \<times> int" where
  "date_key d = (case d of Some t \<Rightarrow> (False, stamp_key t) | None \<Rightarrow> (True, 0, 0, 0, 0))"

definition sort_values :: "series \<Rightarrow> series" where
  "sort_values ys = sort_key (\<lambda>r. date_key (fst r)) ys"

text \<open>\<^verbatim>\<open>dropna(subset=['QNT'])\<close>: the rows whose quantity is not missing.\<close>

definition dropna :: "series \<Rightarrow> series" where
  "dropna ys = filter (\<lambda>r. snd r \<noteq> Blank) ys"

text \<open>
  Lines 66-76, given the parsed dates: the rows are sorted, then filtered; looking up
  a \<^verbatim>\<open>QNT\<close> column that does not exist raises \<^verbatim>\<open>KeyError\<close> at line 67. Only the
  \<^verbatim>\<open>Data\<close> and \<^verbatim>\<open>QNT\<close> cells of a row reach \<^verbatim>\<open>y\<close>.
\<close>

definition limpar :: "frame \<Rightarrow> timestamp option list \<Rightarrow> outcome + series" where
  "limpar df ds =
     (if QNT \<in> set (columns df)
      then Inr (dropna (sort_values (zip ds (column df QNT))))
      else Inl (Crash KeyError))"

text \<open>
  Lines 36-76. Line 45 evaluates \<^verbatim>\<open>date_col\<close>: an unbound name raises \<^verbatim>\<open>NameError\<close>,
  the empty string is the only falsy label.
\<close>

definition preparar :: "('d, 'm) lib \<Rightarrow> frame \<Rightarrow> event list \<times> (outcome + series)" where
  "preparar L df =
     (case date_col (lower L) (columns df) of
        None \<Rightarrow> ([], Inl (Crash NameError))
      | Some c \<Rightarrow>
          if c = []
          then ([Print ErroSemColunaData, Print (ColunasEncontradas (columns df)),
                 Print RenomeieColuna], Inl ExitNoDateColumn)
          else (case normalizar L c (column df c) of
                  (tr, Inl e) \<Rightarrow> (tr, Inl e)
                | (tr, Inr ds) \<Rightarrow> (tr, limpar df ds)))"

subsection \<open>Training (lines 80-104)\<close>

definition treinar :: "('d, 'm) lib \<Rightarrow> series \<Rightarrow> event list \<times> (outcome + 'm)" where
  "treinar L y =
     (case fit L y of
        Inr m \<Rightarrow> ([Print Treinando, Print AlgunsSegundos, Fit y, Print ModeloTreinado], Inr m)
      | Inl e \<Rightarrow> ([Print Treinando, Print AlgunsSegundos, Fit y,
                   Print (ErroTreinar e), Print VerifiqueDados], Inl ExitFitFailed))"

subsection \<open>Forecast count and forecasts (lines 110-141)\<close>

text \<open>\<^verbatim>\<open>y.index.max()\<close>: the latest date of the index, null dates skipped; \<^verbatim>\<open>NaT\<close> if there is none.\<close>

fun index_max :: "timestamp option list \<Rightarrow> timestamp option" where
  "index_max [] = None"
| "index_max (None # ds) = index_max ds"
| "index_max (Some t # ds) =
     (case index_max ds of
        None \<Rightarrow> Some t
      | Some u \<Rightarrow> Some (if stamp_key u \<le> stamp_key t then t else u))"

definition ultima_data :: "series \<Rightarrow> timestamp option" where
  "ultima_data y = index_max (map fst y)"

definition mes_final_desejado :: int where
  "mes_final_desejado = 12"

text \<open>Lines 113-115; the month of \<^verbatim>\<open>NaT\<close> is NaN, and so is the difference.\<close>

definition num_previsoes :: "series \<Rightarrow> steps" where
  "num_previsoes y =
     (case ultima_data y of
        Some t \<Rightarrow> Steps (mes_final_desejado - month t)
      | None \<Rightarrow> StepsNaN)"

text \<open>The test \<^verbatim>\<open>num_previsoes <= 0\<close> of line 117; a comparison with NaN is false.\<close>

definition nonpositive :: "steps \<Rightarrow> bool" where
  "nonpositive n = (case n of Steps k \<Rightarrow> k \<le> 0 | StepsNaN \<Rightarrow> False)"

text \<open>
  Python's \<^verbatim>\<open>round(x)\<close> on a float: the nearest integer, a tie going to the even one.
\<close>

definition py_round :: "real \<Rightarrow> int" where
  "py_round x =
     (let f = \<lfloor>x\<rfloor>; r = x - of_int f in
      if r < 1 / 2 then f
      else if 1 / 2 < r then f + 1
      else if even f then f else f + 1)"

text \<open>The loop of lines 132-141, one iteration per forecast point.\<close>

fun arredondar :: "(timestamp \<times> real) list \<Rightarrow> event list \<times> previsao_final list" where
  "arredondar [] = ([], [])"
| "arredondar ((proxima_data, previsao_qnt) # rest) =
     (let previsao_qnt_arredondada = py_round previsao_qnt;
          (tr, pf) = arredondar rest
      in (Print (PrevisaoPara proxima_data previsao_qnt_arredondada) # tr,
          \<lparr>data = proxima_data, previsao = previsao_qnt_arredondada\<rparr> # pf))"

definition prever ::
  "('d, 'm) lib \<Rightarrow> 'm \<Rightarrow> series \<Rightarrow> event list \<times> (outcome + previsao_final list)" where
  "prever L results y =
     (let n = num_previsoes y in
      if nonpositive n then ([Print DadosCompletos], Inl ExitAlreadyComplete)
      else (case get_forecast L results n of
              Inl e \<Rightarrow> ([Print (Calculando n), GetForecast n], Inl (Crash (Raised e)))
            | Inr previsoes_series \<Rightarrow>
                (let (tr, pf) = arredondar previsoes_series
                 in (Print (Calculando n) # GetForecast n # tr, Inr pf))))"

subsection \<open>Writer (lines 146-197)\<close>

definition aba_alvo :: pystr where
  "aba_alvo = str ''graficos''"

definition coluna_alvo :: nat where
  "coluna_alvo = 6"

definition linhas_alvo :: "nat list" where
  "linhas_alvo = [11, 12, 13, 14]"

text \<open>
  The loop of lines 173-188 from position \<open>i\<close> on, on the sheet as the earlier
  iterations left it. \<^verbatim>\<open>linhas_alvo[i]\<close> raises past the end of the list; assigning a
  read-only cell raises. Either exception leaves the loop for the handler of line 195.
\<close>

fun escrever_celulas :: "nat \<Rightarrow> previsao_final list \<Rightarrow> sheet \<Rightarrow> event list \<times> (exn + sheet)" where
  "escrever_celulas i [] sh = ([], Inr sh)"
| "escrever_celulas i (p # ps) sh =
     (if length linhas_alvo \<le> i then ([], Inl ''IndexError'')
      else
        (let linha_atual = linhas_alvo ! i; valor_previsao = previsao p in
         if (linha_atual, coluna_alvo) \<in> readonly sh
         then ([SetCell linha_atual coluna_alvo valor_previsao], Inl ''AttributeError'')
         else
           (let sh' = sh\<lparr>cells := (cells sh)((linha_atual, coluna_alvo) \<mapsto>
                                       Number (of_int valor_previsao))\<rparr>;
                (tr, r) = escrever_celulas (Suc i) ps sh'
            in (SetCell linha_atual coluna_alvo valor_previsao
                  # Print (ValorSalvo valor_previsao (data p) linha_atual) # tr, r))))"

text \<open>
  Lines 164-169: the sheet the loop writes to and its position in the workbook. It is the
  sheet titled exactly \<^verbatim>\<open>graficos\<close> if there is one; otherwise a new empty sheet, appended
  to the workbook under the title that \<^verbatim>\<open>create_sheet\<close> gives it.
\<close>

definition selecionar_aba ::
  "('d, 'm) lib \<Rightarrow> workbook \<Rightarrow> event list \<times> workbook \<times> nat \<times> sheet" where
  "selecionar_aba L wb =
     (case find_sheet aba_alvo wb of
        Some (k, sh) \<Rightarrow> ([], wb, k, sh)
      | None \<Rightarrow> ([Print AvisoCriandoAba, CreateSheet aba_alvo],
                 wb @ [(create_sheet_title L (map fst wb) aba_alvo, empty_sheet)],
                 length wb, empty_sheet))"

text \<open>
  Lines 150-197: the trace, the way the run ends and the file left on disk. The cell
  writes change the sheet object in memory, that is, the sheet at its position in the
  workbook; \<open>save\<close> is the one call that changes the file.
\<close>

definition escrever ::
  "('d, 'm) lib \<Rightarrow> 'd \<Rightarrow> previsao_final list \<Rightarrow> event list \<times> outcome \<times> 'd" where
  "escrever L disk previsoes_finais =
     (if length previsoes_finais \<noteq> length linhas_alvo
      then ([Print Escrevendo,
             Print (ErroDivergencia (length previsoes_finais) (length linhas_alvo)),
             Print AjusteLinhas], ExitCountMismatch, disk)
      else
        (case load_workbook L disk of
           Inl e \<Rightarrow> ([Print Escrevendo, LoadWorkbook, Print (ErroEscrever e), Print NaoSalvas],
                     EndNotSaved e, disk)
         | Inr wb0 \<Rightarrow>
             (let (tr1, wb, k, sh) = selecionar_aba L wb0;
                  (tr2, r) = escrever_celulas 0 previsoes_finais sh
              in case r of
                   Inl e \<Rightarrow> (Print Escrevendo # LoadWorkbook # tr1 @ tr2
                               @ [Print (ErroEscrever e), Print NaoSalvas],
                             EndNotSaved e, disk)
                 | Inr sh' \<Rightarrow>
                     (let wb' = wb[k := (fst (wb ! k), sh')] in
                      case save L wb' disk of
                        (Some e, disk') \<Rightarrow>
                          (Print Escrevendo # LoadWorkbook # tr1 @ tr2
                             @ [Save wb', Print (ErroEscrever e), Print NaoSalvas],
                           EndNotSaved e, disk')
                      | (None, disk') \<Rightarrow>
                          (Print Escrevendo # LoadWorkbook # tr1 @ tr2
                             @ [Save wb', Print (Sucesso (length previsoes_finais))],
                           EndSaved, disk')))))"

subsection \<open>The script\<close>

text \<open>Lines 80-197 on the cleaned series: training, forecasting, writing.\<close>

definition modelar :: "('d, 'm) lib \<Rightarrow> 'd \<Rightarrow> series \<Rightarrow> event list \<times> outcome \<times> 'd" where
  "modelar L disk y =
     (case treinar L y of
        (tr2, Inl e) \<Rightarrow> (tr2, e, disk)
      | (tr2, Inr results) \<Rightarrow>
          (case prever L results y of
             (tr3, Inl e) \<Rightarrow> (tr2 @ tr3, e, disk)
           | (tr3, Inr previsoes_finais) \<Rightarrow>
               (case escrever L disk previsoes_finais of
                  (tr4, e, disk') \<Rightarrow> (tr2 @ tr3 @ tr4, e, disk'))))"

text \<open>Lines 24-33, then the stages in order; the first stage that ends the run ends it.\<close>

definition run :: "('d, 'm) lib \<Rightarrow> 'd \<Rightarrow> event list \<times> outcome \<times> 'd" where
  "run L disk =
     (case read_excel L disk of
        Inl e \<Rightarrow> ([ReadExcel, Print (ErroLerAba e), Print VerifiqueArquivo], ExitReadError, disk)
      | Inr df \<Rightarrow>
          (let tr0 = [ReadExcel, Print (ColunasDetectadas (columns df))] in
           case preparar L df of
             (tr1, Inl e) \<Rightarrow> (tr0 @ tr1, e, disk)
           | (tr1, Inr y) \<Rightarrow>
               (case modelar L disk y of
                  (tr, e, disk') \<Rightarrow> (tr0 @ tr1 @ tr, e, disk'))))"

subsection \<open>Reading a trace\<close>

text \<open>
  The workbooks a run saved, and the cells it assigned with the value assigned to each,
  in the order of the trace.
\<close>

definition saves :: "event list \<Rightarrow> workbook list" where
  "saves tr = concat (map (\<lambda>e. case e of Save wb \<Rightarrow> [wb] | _ \<Rightarrow> []) tr)"

definition writes :: "event list \<Rightarrow> ((nat \<times> nat) \<times> int) list" where
  "writes tr = concat (map (\<lambda>e. case e of SetCell r c v \<Rightarrow> [((r, c), v)] | _ \<Rightarrow> []) tr)"

text \<open>The titles of a workbook, and the value of a cell of the sheet with a given title.\<close>

definition sheet_titles :: "workbook \<Rightarrow> pystr list" where
  "sheet_titles wb = map fst wb"

definition sheet_cell :: "workbook \<Rightarrow> pystr \<Rightarrow> nat \<times> nat \<Rightarrow> cell option" where
  "sheet_cell wb n rc = (case map_of wb n of None \<Rightarrow> None | Some sh \<Rightarrow> cells sh rc)"

subsection \<open>A sample workbook and sample libraries\<close>

text \<open>
  Concrete inputs on which the model is run below. \<open>sample_strict\<close> reads a text
  \<^verbatim>\<open>mm/yyyy\<close> (two digits, a slash, four digits), \<open>sample_lenient\<close> also a text
  \<^verbatim>\<open>dd/mm/yyyy\<close>; both pass a time stamp through and read a blank as \<^verbatim>\<open>NaT\<close>.
  \<open>sample_forecast\<close> returns the months up to December of 2025.
\<close>

definition row_of :: "(pystr \<times> cell) list \<Rightarrow> pystr \<Rightarrow> cell" where
  "row_of kv c = (case map_of kv c of Some v \<Rightarrow> v | None \<Rightarrow> Blank)"

definition is_digit :: "nat \<Rightarrow> bool" where
  "is_digit c \<longleftrightarrow> 48 \<le> c \<and> c \<le> 57"

definition digits :: "pystr \<Rightarrow> int" where
  "digits s = foldl (\<lambda>n c. 10 * n + (int c - 48)) 0 s"

definition sample_strict :: "cell \<Rightarrow> parse" where
  "sample_strict v =
     (case v of
        Blank \<Rightarrow> NaT
      | Moment t \<Rightarrow> Stamp t
      | Number x \<Rightarrow> Invalid
      | Text s \<Rightarrow>
          if length s = 7 \<and> s ! 2 = 47 \<and> list_all is_digit (take 2 s @ drop 3 s)
             \<and> 1 \<le> digits (take 2 s) \<and> digits (take 2 s) \<le> 12
          then Stamp (Timestamp (digits (drop 3 s)) (digits (take 2 s)) 1 0)
          else Invalid)"

definition sample_lenient :: "cell list \<Rightarrow> cell \<Rightarrow> parse" where
  "sample_lenient col v =
     (case v of
        Text s \<Rightarrow>
          if length s = 10 \<and> s ! 2 = 47 \<and> s ! 5 = 47
             \<and> list_all is_digit (take 2 s @ take 2 (drop 3 s) @ drop 6 s)
             \<and> 1 \<le> digits (take 2 (drop 3 s)) \<and> digits (take 2 (drop 3 s)) \<le> 12
             \<and> 1 \<le> digits (take 2 s) \<and> digits (take 2 s) \<le> 31
          then Stamp (Timestamp (digits (drop 6 s)) (digits (take 2 (drop 3 s)))
                        (digits (take 2 s)) 0)
          else sample_strict v
      | _ \<Rightarrow> sample_strict v)"

definition sample_forecast :: "unit \<Rightarrow> steps \<Rightarrow> exn + (timestamp \<times> real) list" where
  "sample_forecast m n =
     (case n of
        StepsNaN \<Rightarrow> Inl ''TypeError''
      | Steps k \<Rightarrow>
          Inr (map (\<lambda>i. (Timestamp 2025 i 1 0, 100 + 41 * of_int i / 2)) [13 - k..12]))"

text \<open>
  The title of a new sheet when no title in the workbook carries a number: the title asked
  for, followed by \<^verbatim>\<open>1\<close> when a title equal to it up to case is there.
\<close>

definition sample_title :: "pystr list \<Rightarrow> pystr \<Rightarrow> pystr" where
  "sample_title names title =
     (if ascii_lower title \<in> set (map ascii_lower names) then title @ str ''1'' else title)"

text \<open>The file on disk is the workbook it holds; every call succeeds.\<close>

definition sample_lib :: "frame \<Rightarrow> (workbook, unit) lib" where
  "sample_lib df =
     \<lparr>lower = ascii_lower, read_excel = (\<lambda>d. Inr df), strict = sample_strict,
      lenient = sample_lenient, fit = (\<lambda>y. Inr ()), get_forecast = sample_forecast,
      load_workbook = (\<lambda>d. Inr d), create_sheet_title = sample_title,
      save = (\<lambda>wb d. (None, wb))\<rparr>"

text \<open>The same libraries with a workbook that cannot be opened.\<close>

definition locked_lib :: "frame \<Rightarrow> (workbook, unit) lib" where
  "locked_lib df = (sample_lib df)\<lparr>load_workbook := (\<lambda>d. Inl ''PermissionError'')\<rparr>"

text \<open>Months entered as \<^verbatim>\<open>mm/yyyy\<close>, out of order, one without a quantity.\<close>

definition sample_df :: frame where
  "sample_df =
     \<lparr>columns = [str ''Mes'', str ''QNT''],
      rows = [row_of [(str ''Mes'', Text (str ''07/2025'')), (str ''QNT'', Number 10)],
              row_of [(str ''Mes'', Text (str ''08/2025'')), (str ''QNT'', Number 12)],
              row_of [(str ''Mes'', Text (str ''06/2025'')), (str ''QNT'', Blank)],
              row_of [(str ''Mes'', Text (str ''05/2025'')), (str ''QNT'', Number 9)]]\<rparr>"

text \<open>Dates entered as free text: a full date, a word, a month, a blank.\<close>

definition mixed_df :: frame where
  "mixed_df =
     \<lparr>columns = [str ''QNT'', str ''Data ref''],
      rows = [row_of [(str ''Data ref'', Text (str ''15/06/2025'')), (str ''QNT'', Number 10)],
              row_of [(str ''Data ref'', Text (str ''junho'')), (str ''QNT'', Number 11)],
              row_of [(str ''Data ref'', Text (str ''05/2025'')), (str ''QNT'', Number 9)],
              row_of [(str ''Data ref'', Blank), (str ''QNT'', Blank)]]\<rparr>"

text \<open>Months entered as words.\<close>

definition words_df :: frame where
  "words_df =
     \<lparr>columns = [str ''Mes'', str ''QNT''],
      rows = [row_of [(str ''Mes'', Text (str ''junho'')), (str ''QNT'', Number 11)],
              row_of [(str ''Mes'', Text (str ''julho'')), (str ''QNT'', Number 13)]]\<rparr>"

text \<open>A year that is already complete.\<close>

definition december_df :: frame where
  "december_df =
     \<lparr>columns = [str ''Data'', str ''QNT''],
      rows = [row_of [(str ''Data'', Text (str ''12/2025'')), (str ''QNT'', Number 20)],
              row_of [(str ''Data'', Text (str ''11/2025'')), (str ''QNT'', Number 18)]]\<rparr>"

text \<open>No label says date or month.\<close>

definition periodo_df :: frame where
  "periodo_df =
     \<lparr>columns = [str ''Periodo'', str ''QNT''],
      rows = [row_of [(str ''Periodo'', Text (str ''08/2025'')), (str ''QNT'', Number 12)]]\<rparr>"

definition sample_wb :: workbook where
  "sample_wb =
     [(str ''Plan1'', empty_sheet),
      (str ''graficos'', \<lparr>cells = [(11, 6) \<mapsto> Number 1, (3, 2) \<mapsto> Text (str ''Previsao'')],
                           readonly = {}\<rparr>)]"

text \<open>A workbook whose sheet of charts is titled with a capital letter.\<close>

definition clash_wb :: workbook where
  "clash_wb =
     [(str ''Plan1'', empty_sheet),
      (str ''Graficos'', \<lparr>cells = [(11, 6) \<mapsto> Number 1], readonly = {}\<rparr>)]"

text \<open>A workbook in which F13 is covered by a merged range.\<close>

definition merged_wb :: workbook where
  "merged_wb = [(str ''graficos'', \<lparr>cells = Map.empty, readonly = {(13, 6)}\<rparr>)]"

section \<open>Properties\<close>

subsection \<open>Column Resolver\<close>

lemma startswith_iff: "startswith s p \<longleftrightarrow> (\<exists>post. s = p @ post)"
  by (induction s p rule: startswith.induct) auto

lemma str_contains_iff: "str_contains s sub \<longleftrightarrow> (\<exists>pre post. s = pre @ sub @ post)"
proof (induction s)
  case Nil
  then show ?case by auto
next
  case (Cons x xs)
  have "(\<exists>pre post. x # xs = pre @ sub @ post) \<longleftrightarrow>
        (\<exists>post. x # xs = sub @ post) \<or> (\<exists>pre post. xs = pre @ sub @ post)"
  proof
    assume "\<exists>pre post. x # xs = pre @ sub @ post"
    then obtain pre post where e: "x # xs = pre @ sub @ post" by blast
    show "(\<exists>post. x # xs = sub @ post) \<or> (\<exists>pre post. xs = pre @ sub @ post)"
    proof (cases pre)
      case Nil
      with e show ?thesis by auto
    next
      case (Cons a pre')
      with e have "xs = pre' @ sub @ post" by simp
      then show ?thesis by blast
    qed
  next
    assume "(\<exists>post. x # xs = sub @ post) \<or> (\<exists>pre post. xs = pre @ sub @ post)"
    then show "\<exists>pre post. x # xs = pre @ sub @ post"
    proof
      assume "\<exists>post. x # xs = sub @ post"
      then obtain post where "x # xs = [] @ sub @ post" by auto
      then show ?thesis by blast
    next
      assume "\<exists>pre post. xs = pre @ sub @ post"
      then obtain pre post where "x # xs = (x # pre) @ sub @ post" by auto
      then show ?thesis by blast
    qed
  qed
  with Cons show ?case by (simp add: startswith_iff)
qed

lemma scan_columns_first:
  "i < length cols \<Longrightarrow> heuristic (lw (cols ! i)) \<Longrightarrow> \<forall>j<i. \<not> heuristic (lw (cols ! j))
   \<Longrightarrow> scan_columns lw cols = Some (cols ! i)"
proof (induction cols arbitrary: i)
  case Nil
  then show ?case by simp
next
  case (Cons c cs)
  show ?case
  proof (cases i)
    case 0
    with Cons.prems show ?thesis by simp
  next
    case (Suc k)
    with Cons.prems have "\<not> heuristic (lw c)" by auto
    moreover have "scan_columns lw cs = Some (cs ! k)"
      using Cons.prems Suc by (intro Cons.IH) auto
    ultimately show ?thesis using Suc by simp
  qed
qed

lemma scan_columns_None: "scan_columns lw cols = None \<longleftrightarrow> (\<forall>c\<in>set cols. \<not> heuristic (lw c))"
  by (induction cols) (auto simp: Let_def)

lemma scan_columns_Some: "scan_columns lw cols = Some c \<Longrightarrow> c \<in> set cols \<and> heuristic (lw c)"
  by (induction cols) (auto simp: Let_def split: if_splits)

lemma heuristic_iff:
  "heuristic cl \<longleftrightarrow>
     (\<exists>sub\<in>{str ''data'', str ''mes'', [109, 234, 115], str ''month'', str ''date''}.
        \<exists>pre post. cl = pre @ sub @ post)"
  by (simp add: heuristic_def str_contains_iff)

lemma heuristic_Nil: "\<not> heuristic []"
  by (simp add: heuristic_def str_def)

lemma date_col_None:
  "date_col lw cols = None \<longleftrightarrow> Data \<notin> set cols \<and> (\<forall>c\<in>set cols. \<not> heuristic (lw c))"
  by (simp add: date_col_def scan_columns_None)

text \<open>
  The empty string has no letters to lowercase; given that, the label bound to
  \<^verbatim>\<open>date_col\<close> is never empty, and the branch of lines 46-49 never runs.
\<close>

lemma date_col_nonempty:
  assumes "date_col lw cols = Some c" and "lw [] = []"
  shows "c \<noteq> []"
proof (cases "Data \<in> set cols")
  case True
  with assms show ?thesis by (auto simp: date_col_def Data_def str_def)
next
  case False
  with assms have "heuristic (lw c)"
    using scan_columns_Some [of lw cols c] by (simp add: date_col_def)
  with assms(2) show ?thesis
    using heuristic_Nil by auto
qed

text \<open>
  C1. Among the labels of the table, \<^verbatim>\<open>Data\<close> is selected whenever it is one of them,
  wherever it stands. Otherwise the selected label is the first, in the declared order,
  whose lowercased form passes the test of line 41, and a lowercased label passes that
  test exactly when it contains one of \<^verbatim>\<open>data\<close>, \<^verbatim>\<open>mes\<close>, \<^verbatim>\<open>m\<close> U+00EA \<^verbatim>\<open>s\<close>,
  \<^verbatim>\<open>month\<close>, \<^verbatim>\<open>date\<close> as a contiguous substring.
\<close>

theorem date_col_selection:
  "(Data \<in> set cols \<longrightarrow> date_col lw cols = Some Data) \<and>
   (Data \<notin> set cols \<longrightarrow>
      (\<forall>i<length cols. heuristic (lw (cols ! i)) \<and> (\<forall>j<i. \<not> heuristic (lw (cols ! j)))
         \<longrightarrow> date_col lw cols = Some (cols ! i))) \<and>
   (heuristic cl \<longleftrightarrow>
      (\<exists>sub\<in>{str ''data'', str ''mes'', [109, 234, 115], str ''month'', str ''date''}.
         \<exists>pre post. cl = pre @ sub @ post))"
proof (intro conjI impI allI)
  show "date_col lw cols = Some Data" if "Data \<in> set cols"
    using that by (simp add: date_col_def)
next
  fix i
  assume "Data \<notin> set cols" and "i < length cols"
    and "heuristic (lw (cols ! i)) \<and> (\<forall>j<i. \<not> heuristic (lw (cols ! j)))"
  then show "date_col lw cols = Some (cols ! i)"
    by (simp add: date_col_def scan_columns_first)
next
  show "heuristic cl \<longleftrightarrow>
      (\<exists>sub\<in>{str ''data'', str ''mes'', [109, 234, 115], str ''month'', str ''date''}.
         \<exists>pre post. cl = pre @ sub @ post)"
    by (rule heuristic_iff)
qed

theorem date_col_selection_witness:
  "date_col ascii_lower [str ''Mes'', str ''Data'', str ''QNT''] = Some (str ''Data'') \<and>
   date_col ascii_lower [str ''QNT'', str ''Mes ref'', str ''date''] = Some (str ''Mes ref'')"
proof
  have "Data \<in> set [str ''Mes'', str ''Data'', str ''QNT'']"
    by (simp add: Data_def)
  with date_col_selection [of "[str ''Mes'', str ''Data'', str ''QNT'']" ascii_lower]
  show "date_col ascii_lower [str ''Mes'', str ''Data'', str ''QNT''] = Some (str ''Data'')"
    by (simp add: Data_def)
next
  let ?cols = "[str ''QNT'', str ''Mes ref'', str ''date'']"
  have a: "Data \<notin> set ?cols"
    by (simp add: Data_def str_def)
  have b: "(1::nat) < length ?cols"
    by simp
  have c: "heuristic (ascii_lower (?cols ! 1)) \<and> (\<forall>j<1. \<not> heuristic (ascii_lower (?cols ! j)))"
    by (simp add: heuristic_def str_def ascii_lower_def)
  from date_col_selection [of ?cols ascii_lower] a b c
  have "date_col ascii_lower ?cols = Some (?cols ! 1)"
    by blast
  then show "date_col ascii_lower ?cols = Some (str ''Mes ref'')"
    by simp
qed

lemma preparar_no_match:
  "Data \<notin> set (columns df) \<Longrightarrow> \<forall>c\<in>set (columns df). \<not> heuristic (lower L c)
   \<Longrightarrow> preparar L df = ([], Inl (Crash NameError))"
  using date_col_None [of "lower L" "columns df"] by (simp add: preparar_def)

lemma preparar_never_ExitNoDateColumn:
  assumes "lower L [] = []"
  shows "snd (preparar L df) \<noteq> Inl ExitNoDateColumn"
proof (cases "date_col (lower L) (columns df)")
  case None
  then show ?thesis by (simp add: preparar_def)
next
  case (Some c)
  then have "c \<noteq> []" using assms by (rule date_col_nonempty)
  with Some show ?thesis
    by (auto simp: preparar_def limpar_def normalizar_def Let_def
        split: prod.splits sum.splits if_splits)
qed

text \<open>
  C2. A table with the labels \<^verbatim>\<open>Periodo\<close> and \<^verbatim>\<open>QNT\<close> has no \<^verbatim>\<open>Data\<close> column and no
  label that passes the test of line 41. The loop of lines 39-43 ends without binding
  \<^verbatim>\<open>date_col\<close>, so line 45 raises \<^verbatim>\<open>NameError\<close>: the run ends with an uncaught
  exception, and the diagnostic of lines 46-48 that lists the labels is not printed.
\<close>

theorem no_date_column_is_NameError:
  "run (sample_lib periodo_df) sample_wb =
     ([ReadExcel, Print (ColunasDetectadas [str ''Periodo'', str ''QNT''])],
      Crash NameError, sample_wb)"
  by (simp add: run_def sample_lib_def periodo_df_def preparar_def date_col_def Data_def
      heuristic_def str_def ascii_lower_def)

subsection \<open>Date Normalizer\<close>

lemma to_datetime_raise_ok:
  "\<forall>v\<in>set col. p v \<noteq> Invalid \<Longrightarrow> to_datetime_raise p col = Inr (map (\<lambda>v. coerce (p v)) col)"
  by (induction col) (auto split: parse.splits)

lemma to_datetime_raise_fail:
  "\<exists>v\<in>set col. p v = Invalid \<Longrightarrow> to_datetime_raise p col = Inl ''ValueError''"
proof (induction col)
  case Nil
  then show ?case by simp
next
  case (Cons v vs)
  show ?case
  proof (cases "p v = Invalid")
    case True
    then show ?thesis by simp
  next
    case False
    with Cons.prems have "\<exists>v\<in>set vs. p v = Invalid" by auto
    then have "to_datetime_raise p vs = Inl ''ValueError''" by (rule Cons.IH)
    then show ?thesis by (simp split: parse.splits)
  qed
qed

lemma all_null_iff:
  "list_all (\<lambda>d. d = None) (to_datetime_coerce p col) \<longleftrightarrow> (\<forall>v\<in>set col. coerce (p col v) = None)"
  by (simp add: to_datetime_coerce_def list_all_iff)

text \<open>
  C3. The strict parse is the result exactly when the strict format accepts every value
  of the column: then the new \<^verbatim>\<open>Data\<close> column is the strict reading of each value and
  nothing is printed. As soon as one value is rejected, no value keeps its strict
  reading: the column is the lenient reading of every value, a rejected one being null
  (or the run stops at line 61 when all of them are null), and the fallback is reported.
\<close>

theorem two_tier_date_parsing:
  "((\<forall>v\<in>set col. strict L v \<noteq> Invalid) \<longrightarrow>
      normalizar L c col = ([], Inr (map (\<lambda>v. coerce (strict L v)) col))) \<and>
   ((\<exists>v\<in>set col. strict L v = Invalid) \<longrightarrow>
      normalizar L c col =
        (if \<forall>v\<in>set col. coerce (lenient L col v) = None
         then ([Print (ErroConverter c), Print VerifiqueFormato], Inl ExitDatesUnparseable)
         else ([Print (ParserFlexivel c)], Inr (map (\<lambda>v. coerce (lenient L col v)) col))))"
proof (intro conjI impI)
  assume "\<forall>v\<in>set col. strict L v \<noteq> Invalid"
  then show "normalizar L c col = ([], Inr (map (\<lambda>v. coerce (strict L v)) col))"
    by (simp add: normalizar_def to_datetime_raise_ok)
next
  assume "\<exists>v\<in>set col. strict L v = Invalid"
  then have "to_datetime_raise (strict L) col = Inl ''ValueError''"
    by (rule to_datetime_raise_fail)
  then show "normalizar L c col =
        (if \<forall>v\<in>set col. coerce (lenient L col v) = None
         then ([Print (ErroConverter c), Print VerifiqueFormato], Inl ExitDatesUnparseable)
         else ([Print (ParserFlexivel c)], Inr (map (\<lambda>v. coerce (lenient L col v)) col)))"
    by (simp add: normalizar_def all_null_iff) (simp add: to_datetime_coerce_def)
qed

lemmas sample_parse_simps = sample_strict_def sample_lenient_def str_def is_digit_def digits_def
  coerce_def

theorem two_tier_date_parsing_witness:
  "normalizar (sample_lib sample_df) (str ''Mes'')
     [Text (str ''07/2025''), Blank, Text (str ''05/2025'')] =
     ([], Inr [Some (Timestamp 2025 7 1 0), None, Some (Timestamp 2025 5 1 0)]) \<and>
   normalizar (sample_lib sample_df) (str ''Mes'')
     [Text (str ''07/2025''), Text (str ''15/06/2025''), Text (str ''junho'')] =
     ([Print (ParserFlexivel (str ''Mes''))],
      Inr [Some (Timestamp 2025 7 1 0), Some (Timestamp 2025 6 15 0), None])"
proof
  let ?L = "sample_lib sample_df"
  let ?a = "[Text (str ''07/2025''), Blank, Text (str ''05/2025'')]"
  have "\<forall>v\<in>set ?a. strict ?L v \<noteq> Invalid"
    by (simp add: sample_lib_def sample_parse_simps)
  with two_tier_date_parsing [of ?a ?L "str ''Mes''"]
  have "normalizar ?L (str ''Mes'') ?a = ([], Inr (map (\<lambda>v. coerce (strict ?L v)) ?a))"
    by blast
  then show "normalizar ?L (str ''Mes'') ?a =
      ([], Inr [Some (Timestamp 2025 7 1 0), None, Some (Timestamp 2025 5 1 0)])"
    by (simp add: sample_lib_def sample_parse_simps)
next
  let ?L = "sample_lib sample_df"
  let ?b = "[Text (str ''07/2025''), Text (str ''15/06/2025''), Text (str ''junho'')]"
  have inv: "\<exists>v\<in>set ?b. strict ?L v = Invalid"
    by (simp add: sample_lib_def sample_parse_simps)
  have some: "\<not> (\<forall>v\<in>set ?b. coerce (lenient ?L ?b v) = None)"
    by (simp add: sample_lib_def sample_parse_simps)
  from two_tier_date_parsing [of ?b ?L "str ''Mes''"] inv some
  have "normalizar ?L (str ''Mes'') ?b =
      ([Print (ParserFlexivel (str ''Mes''))], Inr (map (\<lambda>v. coerce (lenient ?L ?b v)) ?b))"
    by presburger
  then show "normalizar ?L (str ''Mes'') ?b =
     ([Print (ParserFlexivel (str ''Mes''))],
      Inr [Some (Timestamp 2025 7 1 0), Some (Timestamp 2025 6 15 0), None])"
    by (simp add: sample_lib_def sample_parse_simps)
qed

text \<open>How the stages after the cleaning can end.\<close>

lemma escrever_outcome:
  "fst (snd (escrever L disk pf)) \<in> {ExitCountMismatch, EndSaved} \<union> range EndNotSaved"
  by (auto simp: escrever_def Let_def split: sum.splits prod.splits option.splits)

lemma prever_outcome:
  "prever L m y = (tr, Inl e) \<Longrightarrow> e = ExitAlreadyComplete \<or> e \<in> range (\<lambda>x. Crash (Raised x))"
  by (auto simp: prever_def Let_def split: sum.splits prod.splits if_splits)

lemma treinar_outcome: "treinar L y = (tr, Inl e) \<Longrightarrow> e = ExitFitFailed"
  by (auto simp: treinar_def split: sum.splits)

lemma modelar_outcome:
  "fst (snd (modelar L disk y)) \<in>
     {ExitFitFailed, ExitAlreadyComplete, ExitCountMismatch, EndSaved}
       \<union> range EndNotSaved \<union> range (\<lambda>x. Crash (Raised x))"
proof (cases "treinar L y")
  case (Pair tr2 r2)
  show ?thesis
  proof (cases r2)
    case (Inl e)
    with Pair treinar_outcome [of L y tr2 e] show ?thesis
      by (simp add: modelar_def)
  next
    case (Inr m)
    show ?thesis
    proof (cases "prever L m y")
      case p: (Pair tr3 r3)
      show ?thesis
      proof (cases r3)
        case (Inl e)
        with Pair Inr p prever_outcome [of L m y tr3 e] show ?thesis
          by (auto simp: modelar_def)
      next
        case i: (Inr pf)
        with Pair Inr p escrever_outcome [of L disk pf] show ?thesis
          by (auto simp: modelar_def split: prod.splits)
      qed
    qed
  qed
qed

text \<open>
  C4. When the strict parse raises on the resolved date column: if the lenient parse
  leaves every value null, the run prints the conversion error and stops at line 61
  without touching the file; if it leaves some values null and some not, the warning of
  line 63 is printed and the run goes on to the cleaning of the rows, so it does not end
  at line 61.
\<close>

theorem fallback_outcome_policy:
  assumes "read_excel L disk = Inr df"
    and "date_col (lower L) (columns df) = Some c"
    and "lower L [] = []"
    and "\<exists>v\<in>set (column df c). strict L v = Invalid"
  shows
    "((\<forall>v\<in>set (column df c). coerce (lenient L (column df c) v) = None) \<longrightarrow>
        run L disk =
          ([ReadExcel, Print (ColunasDetectadas (columns df)),
            Print (ErroConverter c), Print VerifiqueFormato], ExitDatesUnparseable, disk)) \<and>
     ((\<exists>v\<in>set (column df c). coerce (lenient L (column df c) v) = None) \<and>
      (\<exists>v\<in>set (column df c). coerce (lenient L (column df c) v) \<noteq> None) \<longrightarrow>
        preparar L df =
          ([Print (ParserFlexivel c)],
           limpar df (map (\<lambda>v. coerce (lenient L (column df c) v)) (column df c))) \<and>
        (\<exists>tr out disk'.
           run L disk =
             (ReadExcel # Print (ColunasDetectadas (columns df)) # Print (ParserFlexivel c) # tr,
              out, disk') \<and>
           out \<noteq> ExitDatesUnparseable))"
proof -
  let ?col = "column df c"
  have c: "c \<noteq> []"
    using assms(2,3) by (rule date_col_nonempty)
  have raise: "to_datetime_raise (strict L) ?col = Inl ''ValueError''"
    using assms(4) by (rule to_datetime_raise_fail)
  have all: "preparar L df =
        ([Print (ErroConverter c), Print VerifiqueFormato], Inl ExitDatesUnparseable)"
    if "\<forall>v\<in>set ?col. coerce (lenient L ?col v) = None"
    using that assms(2) c raise by (simp add: preparar_def normalizar_def all_null_iff)
  have some: "preparar L df =
        ([Print (ParserFlexivel c)], limpar df (map (\<lambda>v. coerce (lenient L ?col v)) ?col))"
    if "\<exists>v\<in>set ?col. coerce (lenient L ?col v) \<noteq> None"
    using that assms(2) c raise
    by (simp add: preparar_def normalizar_def all_null_iff) (simp add: to_datetime_coerce_def)
  have go: "\<exists>tr out disk'.
           run L disk =
             (ReadExcel # Print (ColunasDetectadas (columns df)) # Print (ParserFlexivel c) # tr,
              out, disk') \<and> out \<noteq> ExitDatesUnparseable"
    if "\<exists>v\<in>set ?col. coerce (lenient L ?col v) \<noteq> None"
  proof (cases "limpar df (map (\<lambda>v. coerce (lenient L ?col v)) ?col)")
    case (Inl e)
    then have "e = Crash KeyError"
      by (auto simp: limpar_def split: if_splits)
    with Inl some [OF that] assms(1) show ?thesis
      by (simp add: run_def)
  next
    case (Inr y)
    obtain tr out disk' where m: "modelar L disk y = (tr, out, disk')"
      by (cases "modelar L disk y") auto
    with modelar_outcome [of L disk y] have "out \<noteq> ExitDatesUnparseable"
      by auto
    with Inr some [OF that] assms(1) m show ?thesis
      by (simp add: run_def)
  qed
  show ?thesis
    using all some go assms(1) by (auto simp: run_def)
qed


lemmas sample_frame_simps = column_def row_of_def Data_def QNT_def ascii_lower_def heuristic_def
  date_col_def str_def

theorem fallback_outcome_policy_witness:
  "run (sample_lib words_df) sample_wb =
     ([ReadExcel, Print (ColunasDetectadas [str ''Mes'', str ''QNT'']),
       Print (ErroConverter (str ''Mes'')), Print VerifiqueFormato],
      ExitDatesUnparseable, sample_wb) \<and>
   preparar (sample_lib mixed_df) mixed_df =
     ([Print (ParserFlexivel (str ''Data ref''))],
      Inr [(Some (Timestamp 2025 5 1 0), Number 9), (Some (Timestamp 2025 6 15 0), Number 10),
           (None, Number 11)])"
proof
  let ?L = "sample_lib words_df"
  have 1: "read_excel ?L sample_wb = Inr words_df"
    by (simp add: sample_lib_def)
  have 2: "date_col (lower ?L) (columns words_df) = Some (str ''Mes'')"
    by (simp add: sample_lib_def words_df_def sample_frame_simps str_def)
  have 3: "lower ?L [] = []"
    by (simp add: sample_lib_def ascii_lower_def)
  have 4: "\<exists>v\<in>set (column words_df (str ''Mes'')). strict ?L v = Invalid"
    by (simp add: sample_lib_def words_df_def sample_frame_simps sample_parse_simps)
  have 5: "\<forall>v\<in>set (column words_df (str ''Mes'')).
             coerce (lenient ?L (column words_df (str ''Mes'')) v) = None"
    by (simp add: sample_lib_def words_df_def sample_frame_simps sample_parse_simps)
  from fallback_outcome_policy [OF 1 2 3 4] 5
  have "run ?L sample_wb =
          ([ReadExcel, Print (ColunasDetectadas (columns words_df)),
            Print (ErroConverter (str ''Mes'')), Print VerifiqueFormato],
           ExitDatesUnparseable, sample_wb)"
    by blast
  then show "run ?L sample_wb =
     ([ReadExcel, Print (ColunasDetectadas [str ''Mes'', str ''QNT'']),
       Print (ErroConverter (str ''Mes'')), Print VerifiqueFormato],
      ExitDatesUnparseable, sample_wb)"
    by (simp add: words_df_def)
next
  let ?L = "sample_lib mixed_df"
  let ?c = "str ''Data ref''"
  have 1: "read_excel ?L sample_wb = Inr mixed_df"
    by (simp add: sample_lib_def)
  have 2: "date_col (lower ?L) (columns mixed_df) = Some ?c"
    by (simp add: sample_lib_def mixed_df_def sample_frame_simps str_def)
  have 3: "lower ?L [] = []"
    by (simp add: sample_lib_def ascii_lower_def)
  have 4: "\<exists>v\<in>set (column mixed_df ?c). strict ?L v = Invalid"
    by (simp add: sample_lib_def mixed_df_def sample_frame_simps sample_parse_simps)
  have 5: "(\<exists>v\<in>set (column mixed_df ?c). coerce (lenient ?L (column mixed_df ?c) v) = None) \<and>
           (\<exists>v\<in>set (column mixed_df ?c). coerce (lenient ?L (column mixed_df ?c) v) \<noteq> None)"
    by (simp add: sample_lib_def mixed_df_def sample_frame_simps sample_parse_simps)
  from fallback_outcome_policy [OF 1 2 3 4] 5
  have "preparar ?L mixed_df =
          ([Print (ParserFlexivel ?c)],
           limpar mixed_df
             (map (\<lambda>v. coerce (lenient ?L (column mixed_df ?c) v)) (column mixed_df ?c)))"
    by blast
  then show "preparar ?L mixed_df =
     ([Print (ParserFlexivel ?c)],
      Inr [(Some (Timestamp 2025 5 1 0), Number 9), (Some (Timestamp 2025 6 15 0), Number 10),
           (None, Number 11)])"
    by (simp add: sample_lib_def mixed_df_def sample_frame_simps sample_parse_simps
        limpar_def dropna_def sort_values_def date_key_def stamp_key_def)
qed

subsection \<open>What the stages print and call\<close>

lemma arredondar_Cons:
  "arredondar ((t, q) # rest) =
     (Print (PrevisaoPara t (py_round q)) # fst (arredondar rest),
      \<lparr>data = t, previsao = py_round q\<rparr> # snd (arredondar rest))"
  by (simp add: Let_def split: prod.splits)

lemma arredondar_trace: "set (fst (arredondar ps)) \<subseteq> range Print"
  by (induction ps) (auto simp: arredondar_Cons simp del: arredondar.simps(2))

lemma arredondar_length: "length (snd (arredondar ps)) = length ps"
  by (induction ps) (auto simp: arredondar_Cons simp del: arredondar.simps(2))

lemma escrever_celulas_Cons:
  "escrever_celulas i (p # ps) sh =
     (if length linhas_alvo \<le> i then ([], Inl ''IndexError'')
      else if (linhas_alvo ! i, coluna_alvo) \<in> readonly sh
      then ([SetCell (linhas_alvo ! i) coluna_alvo (previsao p)], Inl ''AttributeError'')
      else (SetCell (linhas_alvo ! i) coluna_alvo (previsao p)
              # Print (ValorSalvo (previsao p) (data p) (linhas_alvo ! i))
              # fst (escrever_celulas (Suc i) ps
                      (sh\<lparr>cells := (cells sh)((linhas_alvo ! i, coluna_alvo) \<mapsto>
                                       Number (of_int (previsao p)))\<rparr>)),
            snd (escrever_celulas (Suc i) ps
                   (sh\<lparr>cells := (cells sh)((linhas_alvo ! i, coluna_alvo) \<mapsto>
                                    Number (of_int (previsao p)))\<rparr>))))"
  by (simp add: Let_def split: prod.splits)

lemma escrever_celulas_trace:
  "set (fst (escrever_celulas i ps sh)) \<subseteq> range Print \<union> {e. \<exists>r c v. e = SetCell r c v}"
  by (induction ps arbitrary: i sh)
    (auto simp: escrever_celulas_Cons simp del: escrever_celulas.simps(2))

lemma normalizar_trace: "set (fst (normalizar L c col)) \<subseteq> range Print"
  by (auto simp: normalizar_def Let_def split: sum.splits)

lemma preparar_trace: "set (fst (preparar L df)) \<subseteq> range Print"
proof (cases "date_col (lower L) (columns df)")
  case None
  then show ?thesis by (simp add: preparar_def)
next
  case (Some c)
  obtain tr r where n: "normalizar L c (column df c) = (tr, r)"
    by (cases "normalizar L c (column df c)") auto
  with normalizar_trace [of L c "column df c"] have "set tr \<subseteq> range Print"
    by simp
  with Some n show ?thesis
    by (cases r) (auto simp: preparar_def)
qed

lemma preparar_series:
  "preparar L df = (tr, Inr y) \<Longrightarrow> \<exists>ds. y = dropna (sort_values (zip ds (column df QNT)))"
  by (auto simp: preparar_def limpar_def split: option.splits prod.splits sum.splits if_splits)

lemma prever_unfold:
  "prever L m y =
     (if nonpositive (num_previsoes y) then ([Print DadosCompletos], Inl ExitAlreadyComplete)
      else (case get_forecast L m (num_previsoes y) of
              Inl e \<Rightarrow> ([Print (Calculando (num_previsoes y)), GetForecast (num_previsoes y)],
                        Inl (Crash (Raised e)))
            | Inr ps \<Rightarrow> (Print (Calculando (num_previsoes y)) # GetForecast (num_previsoes y)
                           # fst (arredondar ps), Inr (snd (arredondar ps)))))"
  by (simp add: prever_def Let_def split: prod.splits sum.splits)

lemma prever_trace:
  "set (fst (prever L m y)) \<subseteq> range Print \<union> range GetForecast"
  using arredondar_trace by (auto simp: prever_unfold split: sum.splits)

lemma selecionar_aba_trace:
  "set (fst (selecionar_aba L wb)) \<subseteq> range Print \<union> range CreateSheet"
  by (auto simp: selecionar_aba_def split: option.splits)

lemma treinar_Fit: "Fit y' \<in> set (fst (treinar L y)) \<Longrightarrow> y' = y"
  by (auto simp: treinar_def split: sum.splits)

lemma escrever_no_Fit: "Fit y' \<notin> set (fst (escrever L disk pf))"
proof -
  have a: "Fit y' \<notin> set (fst (selecionar_aba L wb))" for wb
    using selecionar_aba_trace [of L wb] by auto
  have b: "Fit y' \<notin> set (fst (escrever_celulas i ps sh))" for i ps sh
    using escrever_celulas_trace [of i ps sh] by auto
  show ?thesis
    using a b
    apply (auto simp: escrever_def Let_def split: sum.splits prod.splits option.splits)
    apply (metis fst_conv)+
    done
qed

lemma modelar_Fit:
  assumes "Fit y' \<in> set (fst (modelar L disk y))"
  shows "y' = y"
proof (rule ccontr)
  assume ne: "y' \<noteq> y"
  have a: "Fit y' \<notin> set (fst (treinar L y))"
    using ne treinar_Fit by blast
  have b: "Fit y' \<notin> set (fst (prever L m y))" for m
    using prever_trace [of L m y] by auto
  have c: "Fit y' \<notin> set (fst (escrever L disk pf))" for pf
    by (rule escrever_no_Fit)
  have "Fit y' \<notin> set (fst (modelar L disk y))"
    using a b c
    apply (auto simp: modelar_def split: prod.splits sum.splits)
    apply (metis fst_conv)+
    done
  with assms show False by simp
qed

lemma run_Fit:
  assumes "Fit y \<in> set (fst (run L disk))"
  shows "\<exists>df tr. read_excel L disk = Inr df \<and> preparar L df = (tr, Inr y)"
proof (cases "read_excel L disk")
  case (Inl e)
  with assms show ?thesis by (simp add: run_def)
next
  case (Inr df)
  obtain tr1 r where p: "preparar L df = (tr1, r)"
    by (cases "preparar L df") auto
  with preparar_trace [of L df] have np: "Fit y \<notin> set tr1"
    by auto
  show ?thesis
  proof (cases r)
    case (Inl e)
    with assms Inr p np show ?thesis by (simp add: run_def)
  next
    case r: (Inr y0)
    with assms Inr p np have "Fit y \<in> set (fst (modelar L disk y0))"
      by (auto simp: run_def split: prod.splits)
    then have "y = y0" by (rule modelar_Fit)
    with Inr p r show ?thesis by simp
  qed
qed

subsection \<open>Cleaner/Sorter\<close>

lemma date_key_le_Some:
  "date_key (Some t) \<le> date_key (Some u) \<longleftrightarrow> stamp_key t \<le> stamp_key u"
  by (simp add: date_key_def)

lemma date_key_le_None: "date_key None \<le> date_key d \<longleftrightarrow> d = None"
  by (cases d) (auto simp: date_key_def)

lemma stamp_key_inj: "stamp_key t = stamp_key u \<longleftrightarrow> t = u"
  by (cases t; cases u) (simp add: stamp_key_def)

lemma sorted_dropna_sort_values:
  "sorted (map (\<lambda>r. date_key (fst r)) (dropna (sort_values ys)))"
  unfolding dropna_def sort_values_def by (intro sorted_filter sorted_sort_key)

lemma mset_dropna_sort_values:
  "mset (dropna (sort_values ys)) = filter_mset (\<lambda>r. snd r \<noteq> Blank) (mset ys)"
  by (simp add: dropna_def sort_values_def)

lemma cleaned_props:
  assumes "y = dropna (sort_values ys)"
  shows "(\<forall>r\<in>set y. snd r \<noteq> Blank) \<and>
     sorted (map (\<lambda>r. date_key (fst r)) y) \<and>
     (\<forall>i j t u. i < j \<and> j < length y \<and> fst (y ! i) = Some t \<and> fst (y ! j) = Some u
        \<longrightarrow> stamp_key t \<le> stamp_key u) \<and>
     (\<forall>i j. i < j \<and> j < length y \<and> fst (y ! i) = None \<longrightarrow> fst (y ! j) = None)"
proof -
  have s: "sorted (map (\<lambda>r. date_key (fst r)) y)"
    unfolding assms by (rule sorted_dropna_sort_values)
  have m: "date_key (fst (y ! i)) \<le> date_key (fst (y ! j))" if "i < j" "j < length y" for i j
    using sorted_nth_mono [OF s, of i j] that by simp
  have "\<forall>r\<in>set y. snd r \<noteq> Blank"
    by (simp add: assms dropna_def)
  moreover have "stamp_key t \<le> stamp_key u"
    if "i < j" "j < length y" "fst (y ! i) = Some t" "fst (y ! j) = Some u" for i j t u
    using m [OF that(1,2)] that(3,4) by (simp add: date_key_le_Some)
  moreover have "fst (y ! j) = None" if "i < j" "j < length y" "fst (y ! i) = None" for i j
    using m [OF that(1,2)] that(3) by (simp add: date_key_le_None)
  ultimately show ?thesis using s by blast
qed

text \<open>
  C5. When the table has a \<^verbatim>\<open>QNT\<close> column the cleaning returns a series, and that
  series is, as a multiset, the rows whose quantity is not missing: nothing else is
  dropped and equal rows are kept as often as they occur. Every series the cleaning
  returns, and every series a run hands to the model, has no row with a missing
  quantity and is in ascending order of date with the null dates last (the order
  \<^verbatim>\<open>sort_values\<close> sorts by): of two dated rows the earlier one in the series has
  the earlier or the same date, and nothing but null-dated rows follows a null-dated row.
\<close>

theorem cleaned_series_invariant:
  "(QNT \<in> set (columns df) \<longrightarrow>
      (\<exists>y. limpar df ds = Inr y \<and>
         mset y = filter_mset (\<lambda>r. snd r \<noteq> Blank) (mset (zip ds (column df QNT))))) \<and>
   (\<forall>y. limpar df ds = Inr y \<or> Fit y \<in> set (fst (run L disk)) \<longrightarrow>
      (\<forall>r\<in>set y. snd r \<noteq> Blank) \<and>
      sorted (map (\<lambda>r. date_key (fst r)) y) \<and>
      (\<forall>i j t u. i < j \<and> j < length y \<and> fst (y ! i) = Some t \<and> fst (y ! j) = Some u
         \<longrightarrow> stamp_key t \<le> stamp_key u) \<and>
      (\<forall>i j. i < j \<and> j < length y \<and> fst (y ! i) = None \<longrightarrow> fst (y ! j) = None))"
proof (rule conjI)
  show "QNT \<in> set (columns df) \<longrightarrow>
      (\<exists>y. limpar df ds = Inr y \<and>
         mset y = filter_mset (\<lambda>r. snd r \<noteq> Blank) (mset (zip ds (column df QNT))))"
    by (simp add: limpar_def mset_dropna_sort_values)
next
  have "\<exists>ys. y = dropna (sort_values ys)"
    if "limpar df ds = Inr y \<or> Fit y \<in> set (fst (run L disk))" for y
    using that
  proof
    assume "limpar df ds = Inr y"
    then show ?thesis by (auto simp: limpar_def split: if_splits)
  next
    assume "Fit y \<in> set (fst (run L disk))"
    then obtain df0 tr where "preparar L df0 = (tr, Inr y)"
      using run_Fit [of y L disk] by blast
    then show ?thesis using preparar_series [of L df0 tr y] by blast
  qed
  note gen = this
  show "\<forall>y. limpar df ds = Inr y \<or> Fit y \<in> set (fst (run L disk)) \<longrightarrow>
      (\<forall>r\<in>set y. snd r \<noteq> Blank) \<and>
      sorted (map (\<lambda>r. date_key (fst r)) y) \<and>
      (\<forall>i j t u. i < j \<and> j < length y \<and> fst (y ! i) = Some t \<and> fst (y ! j) = Some u
         \<longrightarrow> stamp_key t \<le> stamp_key u) \<and>
      (\<forall>i j. i < j \<and> j < length y \<and> fst (y ! i) = None \<longrightarrow> fst (y ! j) = None)"
  proof (rule allI, rule impI)
    fix y
    assume "limpar df ds = Inr y \<or> Fit y \<in> set (fst (run L disk))"
    then obtain ys where "y = dropna (sort_values ys)"
      using gen by blast
    then show "(\<forall>r\<in>set y. snd r \<noteq> Blank) \<and>
      sorted (map (\<lambda>r. date_key (fst r)) y) \<and>
      (\<forall>i j t u. i < j \<and> j < length y \<and> fst (y ! i) = Some t \<and> fst (y ! j) = Some u
         \<longrightarrow> stamp_key t \<le> stamp_key u) \<and>
      (\<forall>i j. i < j \<and> j < length y \<and> fst (y ! i) = None \<longrightarrow> fst (y ! j) = None)"
      by (rule cleaned_props)
  qed
qed

lemmas sample_run_simps = run_def modelar_def preparar_def normalizar_def limpar_def treinar_def
  prever_unfold escrever_def selecionar_aba_def to_datetime_coerce_def dropna_def sort_values_def
  date_key_def stamp_key_def ultima_data_def num_previsoes_def nonpositive_def
  mes_final_desejado_def sample_forecast_def linhas_alvo_def coluna_alvo_def aba_alvo_def
  py_round_def empty_sheet_def

theorem cleaned_series_invariant_witness:
  "limpar sample_df
     [Some (Timestamp 2025 7 1 0), Some (Timestamp 2025 8 1 0), None, Some (Timestamp 2025 5 1 0)]
     = Inr [(Some (Timestamp 2025 5 1 0), Number 9), (Some (Timestamp 2025 7 1 0), Number 10),
            (Some (Timestamp 2025 8 1 0), Number 12)] \<and>
   Fit [(Some (Timestamp 2025 5 1 0), Number 9), (Some (Timestamp 2025 7 1 0), Number 10),
        (Some (Timestamp 2025 8 1 0), Number 12)]
     \<in> set (fst (run (sample_lib sample_df) sample_wb)) \<and>
   sorted (map (\<lambda>r. date_key (fst r))
     [(Some (Timestamp 2025 5 1 0), Number 9), (Some (Timestamp 2025 7 1 0), Number 10),
      (Some (Timestamp 2025 8 1 0), Number 12)])"
proof -
  let ?ds = "[Some (Timestamp 2025 7 1 0), Some (Timestamp 2025 8 1 0), None,
              Some (Timestamp 2025 5 1 0)]"
  let ?y = "[(Some (Timestamp 2025 5 1 0), Number 9), (Some (Timestamp 2025 7 1 0), Number 10),
             (Some (Timestamp 2025 8 1 0), Number 12)]"
  have q: "QNT \<in> set (columns sample_df)"
    by (simp add: sample_df_def QNT_def)
  have l: "limpar sample_df ?ds = Inr ?y"
    by (simp add: sample_df_def sample_frame_simps limpar_def dropna_def sort_values_def
        date_key_def stamp_key_def)
  have f: "Fit ?y \<in> set (fst (run (sample_lib sample_df) sample_wb))"
    by (simp add: sample_lib_def sample_df_def sample_wb_def sample_frame_simps
        sample_parse_simps sample_run_simps Let_def)
  from cleaned_series_invariant [of sample_df ?ds "sample_lib sample_df" sample_wb] q l f
  have "sorted (map (\<lambda>r. date_key (fst r)) ?y)"
    by blast
  with l f show ?thesis by blast
qed


subsection \<open>Forecast count\<close>

text \<open>\<^verbatim>\<open>y.index.max()\<close> is the latest of the dates in the index.\<close>

lemma index_max_None: "index_max ds = None \<longleftrightarrow> (\<forall>t. Some t \<notin> set ds)"
  by (induction ds rule: index_max.induct) (auto split: option.splits)

lemma index_max_Some:
  "index_max ds = Some t \<Longrightarrow>
     Some t \<in> set ds \<and> (\<forall>u. Some u \<in> set ds \<longrightarrow> stamp_key u \<le> stamp_key t)"
proof (induction ds arbitrary: t rule: index_max.induct)
  case 1
  then show ?case by simp
next
  case (2 ds)
  then show ?case by simp
next
  case (3 s ds)
  show ?case
  proof (cases "index_max ds")
    case None
    with 3 index_max_None [of ds] show ?thesis by auto
  next
    case (Some u)
    with 3 show ?thesis by (auto split: if_splits)
  qed
qed

lemma index_max_latest:
  assumes "Some t \<in> set ds" and "\<forall>u. Some u \<in> set ds \<longrightarrow> stamp_key u \<le> stamp_key t"
  shows "index_max ds = Some t"
proof (cases "index_max ds")
  case None
  with assms(1) index_max_None [of ds] show ?thesis by simp
next
  case (Some m)
  from index_max_Some [OF Some] assms have "stamp_key m = stamp_key t"
    by (meson order_antisym)
  with Some show ?thesis by (simp add: stamp_key_inj)
qed

text \<open>
  C6. Let \<open>t\<close> be the latest date of the cleaned series and \<open>m\<close> its month. The number of
  forecasts is \<open>12 - m\<close>. When that is positive, exactly that many steps are announced
  and requested from the fitted model. When it is zero or negative (December), nothing is
  requested: the stage prints that the data are already complete and stops, and a run
  that reached this stage ends there, at the \<^verbatim>\<open>sys.exit()\<close> of line 119, with no error
  message and the file untouched.
\<close>

theorem forecast_count:
  assumes "Some t \<in> fst ` set y"
    and "\<forall>u. Some u \<in> fst ` set y \<longrightarrow> stamp_key u \<le> stamp_key t"
  shows
    "num_previsoes y = Steps (12 - month t) \<and>
     (0 < 12 - month t \<longrightarrow>
        (\<exists>tr r. prever L results y =
           (Print (Calculando (Steps (12 - month t))) # GetForecast (Steps (12 - month t)) # tr,
            r))) \<and>
     (12 - month t \<le> 0 \<longrightarrow>
        prever L results y = ([Print DadosCompletos], Inl ExitAlreadyComplete) \<and>
        (\<forall>df tr1. read_excel L disk = Inr df \<and> preparar L df = (tr1, Inr y) \<and>
                  fit L y = Inr results \<longrightarrow>
           run L disk =
             ([ReadExcel, Print (ColunasDetectadas (columns df))] @ tr1 @
              [Print Treinando, Print AlgunsSegundos, Fit y, Print ModeloTreinado,
               Print DadosCompletos],
              ExitAlreadyComplete, disk)))"
proof -
  have "ultima_data y = Some t"
    unfolding ultima_data_def using assms by (intro index_max_latest) auto
  then have n: "num_previsoes y = Steps (12 - month t)"
    by (simp add: num_previsoes_def mes_final_desejado_def)
  have pos: "\<exists>tr r. prever L results y =
       (Print (Calculando (Steps (12 - month t))) # GetForecast (Steps (12 - month t)) # tr, r)"
    if "0 < 12 - month t"
    using that n by (simp add: prever_unfold nonpositive_def split: sum.splits)
  have stop: "prever L results y = ([Print DadosCompletos], Inl ExitAlreadyComplete)"
    if "12 - month t \<le> 0"
    using that n by (simp add: prever_unfold nonpositive_def)
  have "run L disk =
         ([ReadExcel, Print (ColunasDetectadas (columns df))] @ tr1 @
          [Print Treinando, Print AlgunsSegundos, Fit y, Print ModeloTreinado,
           Print DadosCompletos],
          ExitAlreadyComplete, disk)"
    if "12 - month t \<le> 0" "read_excel L disk = Inr df" "preparar L df = (tr1, Inr y)"
      "fit L y = Inr results" for df tr1
    using stop [OF that(1)] that(2-4) by (simp add: run_def modelar_def treinar_def)
  with n pos stop show ?thesis by blast
qed

theorem forecast_count_witness:
  "num_previsoes [(Some (Timestamp 2025 5 1 0), Number 9), (Some (Timestamp 2025 8 1 0), Number 12),
                  (None, Number 11)] = Steps 4 \<and>
   run (sample_lib december_df) sample_wb =
     ([ReadExcel, Print (ColunasDetectadas [str ''Data'', str ''QNT'']),
       Print Treinando, Print AlgunsSegundos,
       Fit [(Some (Timestamp 2025 11 1 0), Number 18), (Some (Timestamp 2025 12 1 0), Number 20)],
       Print ModeloTreinado, Print DadosCompletos],
      ExitAlreadyComplete, sample_wb)"
proof
  let ?y = "[(Some (Timestamp 2025 5 1 0), Number 9), (Some (Timestamp 2025 8 1 0), Number 12),
             (None, Number 11)]"
  let ?t = "Timestamp 2025 8 1 0"
  have 1: "Some ?t \<in> fst ` set ?y"
    by simp
  have 2: "\<forall>u. Some u \<in> fst ` set ?y \<longrightarrow> stamp_key u \<le> stamp_key ?t"
    by (auto simp: stamp_key_def)
  from forecast_count [OF 1 2, of "sample_lib sample_df" "()" sample_wb]
  show "num_previsoes ?y = Steps 4"
    by simp
next
  let ?L = "sample_lib december_df"
  let ?y = "[(Some (Timestamp 2025 11 1 0), Number 18), (Some (Timestamp 2025 12 1 0), Number 20)]"
  let ?t = "Timestamp 2025 12 1 0"
  have 1: "Some ?t \<in> fst ` set ?y"
    by simp
  have 2: "\<forall>u. Some u \<in> fst ` set ?y \<longrightarrow> stamp_key u \<le> stamp_key ?t"
    by (auto simp: stamp_key_def)
  have 3: "12 - month ?t \<le> 0"
    by simp
  have 4: "read_excel ?L sample_wb = Inr december_df"
    by (simp add: sample_lib_def)
  have 5: "preparar ?L december_df = ([], Inr ?y)"
    by (simp add: sample_lib_def december_df_def sample_frame_simps sample_parse_simps
        preparar_def normalizar_def limpar_def dropna_def sort_values_def date_key_def
        stamp_key_def)
  have 6: "fit ?L ?y = Inr ()"
    by (simp add: sample_lib_def)
  from forecast_count [OF 1 2, of ?L "()" sample_wb] 3 4 5 6
  have "run ?L sample_wb =
     ([ReadExcel, Print (ColunasDetectadas (columns december_df))] @ [] @
       [Print Treinando, Print AlgunsSegundos, Fit ?y, Print ModeloTreinado, Print DadosCompletos],
      ExitAlreadyComplete, sample_wb)"
    by blast
  then show "run ?L sample_wb =
     ([ReadExcel, Print (ColunasDetectadas [str ''Data'', str ''QNT'']),
       Print Treinando, Print AlgunsSegundos, Fit ?y, Print ModeloTreinado, Print DadosCompletos],
      ExitAlreadyComplete, sample_wb)"
    by (simp add: december_df_def)
qed

subsection \<open>Writer\<close>

lemma saves_append: "saves (a @ b) = saves a @ saves b"
  by (simp add: saves_def)

lemma writes_append: "writes (a @ b) = writes a @ writes b"
  by (simp add: writes_def)

lemma saves_Prints: "set tr \<subseteq> range Print \<Longrightarrow> saves tr = []"
  by (induction tr) (auto simp: saves_def)

lemma writes_Prints: "set tr \<subseteq> range Print \<Longrightarrow> writes tr = []"
  by (induction tr) (auto simp: writes_def)

lemma not_Print: "set tr \<subseteq> range Print \<Longrightarrow> LoadWorkbook \<notin> set tr"
  by auto

text \<open>
  C7. When the forecaster returns \<open>K\<close> points (of finite quantity) and \<open>K\<close> is not the
  number of target rows (four), the writing stage prints the mismatch and stops at line
  157 with the file as it was; and in a run that got that far, nothing before those lines
  loaded the workbook, assigned a cell or saved.
\<close>

theorem count_mismatch_precedes_writing:
  assumes "length ps \<noteq> length linhas_alvo"
  shows
    "escrever L disk (snd (arredondar ps)) =
       ([Print Escrevendo, Print (ErroDivergencia (length ps) 4), Print AjusteLinhas],
        ExitCountMismatch, disk) \<and>
     (\<forall>df tr1 y results.
        read_excel L disk = Inr df \<and> preparar L df = (tr1, Inr y) \<and> fit L y = Inr results \<and>
        \<not> nonpositive (num_previsoes y) \<and> get_forecast L results (num_previsoes y) = Inr ps
        \<longrightarrow>
        (\<exists>tr. run L disk =
                 (tr @ [Print Escrevendo, Print (ErroDivergencia (length ps) 4),
                        Print AjusteLinhas],
                  ExitCountMismatch, disk) \<and>
              LoadWorkbook \<notin> set tr \<and> writes tr = [] \<and> saves tr = []))"
proof (rule conjI)
  show e: "escrever L disk (snd (arredondar ps)) =
       ([Print Escrevendo, Print (ErroDivergencia (length ps) 4), Print AjusteLinhas],
        ExitCountMismatch, disk)"
    using assms by (simp add: escrever_def arredondar_length linhas_alvo_def)
  show "\<forall>df tr1 y results.
        read_excel L disk = Inr df \<and> preparar L df = (tr1, Inr y) \<and> fit L y = Inr results \<and>
        \<not> nonpositive (num_previsoes y) \<and> get_forecast L results (num_previsoes y) = Inr ps
        \<longrightarrow>
        (\<exists>tr. run L disk =
                 (tr @ [Print Escrevendo, Print (ErroDivergencia (length ps) 4),
                        Print AjusteLinhas],
                  ExitCountMismatch, disk) \<and>
              LoadWorkbook \<notin> set tr \<and> writes tr = [] \<and> saves tr = [])"
  proof (intro allI impI)
    fix df tr1 y results
    assume h: "read_excel L disk = Inr df \<and> preparar L df = (tr1, Inr y) \<and>
        fit L y = Inr results \<and> \<not> nonpositive (num_previsoes y) \<and>
        get_forecast L results (num_previsoes y) = Inr ps"
    let ?tr = "[ReadExcel, Print (ColunasDetectadas (columns df))] @ tr1 @
        [Print Treinando, Print AlgunsSegundos, Fit y, Print ModeloTreinado,
         Print (Calculando (num_previsoes y)), GetForecast (num_previsoes y)]
        @ fst (arredondar ps)"
    have t1: "set tr1 \<subseteq> range Print"
      using preparar_trace [of L df] h by simp
    have t3: "set (fst (arredondar ps)) \<subseteq> range Print"
      by (rule arredondar_trace)
    have r: "run L disk =
        (?tr @ [Print Escrevendo, Print (ErroDivergencia (length ps) 4), Print AjusteLinhas],
         ExitCountMismatch, disk)"
      using h e by (simp add: run_def modelar_def treinar_def prever_unfold)
    have "LoadWorkbook \<notin> set ?tr"
      using t1 t3 by auto
    moreover have "writes ?tr = []"
      using writes_Prints [OF t1] writes_Prints [OF t3] by (simp add: writes_append) (simp add: writes_def)
    moreover have "saves ?tr = []"
      using saves_Prints [OF t1] saves_Prints [OF t3] by (simp add: saves_append) (simp add: saves_def)
    ultimately show "\<exists>tr. run L disk =
                 (tr @ [Print Escrevendo, Print (ErroDivergencia (length ps) 4),
                        Print AjusteLinhas],
                  ExitCountMismatch, disk) \<and>
              LoadWorkbook \<notin> set tr \<and> writes tr = [] \<and> saves tr = []"
      using r by blast
  qed
qed

theorem count_mismatch_precedes_writing_witness:
  "\<exists>tr. run (sample_lib mixed_df) sample_wb =
          (tr @ [Print Escrevendo, Print (ErroDivergencia 6 4), Print AjusteLinhas],
           ExitCountMismatch, sample_wb) \<and>
        LoadWorkbook \<notin> set tr \<and> writes tr = [] \<and> saves tr = []"
proof -
  let ?L = "sample_lib mixed_df"
  let ?y = "[(Some (Timestamp 2025 5 1 0), Number 9), (Some (Timestamp 2025 6 15 0), Number 10),
             (None, Number 11)]"
  let ?ps = "map (\<lambda>i. (Timestamp 2025 i 1 0, 100 + 41 * real_of_int i / 2)) [7..12]"
  have 0: "length ?ps \<noteq> length linhas_alvo"
    by (simp add: linhas_alvo_def)
  have 1: "read_excel ?L sample_wb = Inr mixed_df"
    by (simp add: sample_lib_def)
  have 2: "preparar ?L mixed_df = ([Print (ParserFlexivel (str ''Data ref''))], Inr ?y)"
    by (simp add: sample_lib_def mixed_df_def sample_frame_simps sample_parse_simps
        preparar_def normalizar_def to_datetime_coerce_def limpar_def dropna_def sort_values_def
        date_key_def stamp_key_def)
  have 3: "fit ?L ?y = Inr ()"
    by (simp add: sample_lib_def)
  have n: "num_previsoes ?y = Steps 6"
    by (simp add: num_previsoes_def ultima_data_def mes_final_desejado_def stamp_key_def)
  have 4: "\<not> nonpositive (num_previsoes ?y)"
    by (simp add: n nonpositive_def)
  have 5: "get_forecast ?L () (num_previsoes ?y) = Inr ?ps"
    by (simp add: n sample_lib_def sample_forecast_def)
  have 6: "length ?ps = 6"
    by simp
  have h: "read_excel ?L sample_wb = Inr mixed_df \<and>
      preparar ?L mixed_df = ([Print (ParserFlexivel (str ''Data ref''))], Inr ?y) \<and>
      fit ?L ?y = Inr () \<and> \<not> nonpositive (num_previsoes ?y) \<and>
      get_forecast ?L () (num_previsoes ?y) = Inr ?ps"
    using 1 2 3 4 5 by (intro conjI)
  have "\<exists>tr. run ?L sample_wb =
          (tr @ [Print Escrevendo, Print (ErroDivergencia (length ?ps) 4), Print AjusteLinhas],
           ExitCountMismatch, sample_wb) \<and>
        LoadWorkbook \<notin> set tr \<and> writes tr = [] \<and> saves tr = []"
    by (rule count_mismatch_precedes_writing [OF 0, of ?L sample_wb, THEN conjunct2,
          rule_format, OF h])
  then show ?thesis
    unfolding 6 .
qed


lemma length_four: "length xs = 4 \<Longrightarrow> xs = [xs ! 0, xs ! 1, xs ! 2, xs ! 3]"
  by (rule nth_equalityI) (auto simp: nth_Cons' less_Suc_eq numeral_eq_Suc)




lemma find_sheet_Some:
  "find_sheet n wb = Some (k, sh) \<Longrightarrow> k < length wb \<and> wb ! k = (n, sh)"
proof (induction wb arbitrary: k sh)
  case Nil
  then show ?case by simp
next
  case (Cons a wb)
  obtain m s where a: "a = (m, s)" by (cases a)
  show ?case
  proof (cases "m = n")
    case True
    with Cons.prems a show ?thesis by simp
  next
    case False
    with Cons.prems a obtain i where "find_sheet n wb = Some (i, sh)" and "k = Suc i"
      by (auto split: option.splits)
    with Cons.IH [of i sh] show ?thesis by simp
  qed
qed

lemma selecionar_aba_props:
  assumes "selecionar_aba L wb0 = (tr1, wb1, k, sh0)"
  shows "k < length wb1 \<and> snd (wb1 ! k) = sh0 \<and> saves tr1 = [] \<and> writes tr1 = []"
proof (cases "find_sheet aba_alvo wb0")
  case None
  with assms show ?thesis
    by (auto simp: selecionar_aba_def saves_def writes_def)
next
  case (Some p)
  obtain i s where p: "p = (i, s)" by (cases p)
  from find_sheet_Some [of aba_alvo wb0 i s] Some p assms show ?thesis
    by (auto simp: selecionar_aba_def saves_def writes_def)
qed

lemma escrever_celulas_four:
  "escrever_celulas 0 [a, b, c, d] sh =
     (if (11, 6) \<in> readonly sh
      then ([SetCell 11 6 (previsao a)], Inl ''AttributeError'')
      else if (12, 6) \<in> readonly sh
      then ([SetCell 11 6 (previsao a), Print (ValorSalvo (previsao a) (data a) 11),
             SetCell 12 6 (previsao b)], Inl ''AttributeError'')
      else if (13, 6) \<in> readonly sh
      then ([SetCell 11 6 (previsao a), Print (ValorSalvo (previsao a) (data a) 11),
             SetCell 12 6 (previsao b), Print (ValorSalvo (previsao b) (data b) 12),
             SetCell 13 6 (previsao c)], Inl ''AttributeError'')
      else if (14, 6) \<in> readonly sh
      then ([SetCell 11 6 (previsao a), Print (ValorSalvo (previsao a) (data a) 11),
             SetCell 12 6 (previsao b), Print (ValorSalvo (previsao b) (data b) 12),
             SetCell 13 6 (previsao c), Print (ValorSalvo (previsao c) (data c) 13),
             SetCell 14 6 (previsao d)], Inl ''AttributeError'')
      else ([SetCell 11 6 (previsao a), Print (ValorSalvo (previsao a) (data a) 11),
             SetCell 12 6 (previsao b), Print (ValorSalvo (previsao b) (data b) 12),
             SetCell 13 6 (previsao c), Print (ValorSalvo (previsao c) (data c) 13),
             SetCell 14 6 (previsao d), Print (ValorSalvo (previsao d) (data d) 14)],
            Inr (sh\<lparr>cells := (cells sh)
                   ((11, 6) \<mapsto> Number (of_int (previsao a)),
                    (12, 6) \<mapsto> Number (of_int (previsao b)),
                    (13, 6) \<mapsto> Number (of_int (previsao c)),
                    (14, 6) \<mapsto> Number (of_int (previsao d)))\<rparr>)))"
  by (simp add: Let_def linhas_alvo_def coluna_alvo_def)


lemma escrever_four:
  assumes "load_workbook L disk = Inr wb0"
    and "selecionar_aba L wb0 = (tr1, wb1, k, sh0)"
    and "(11, 6) \<notin> readonly sh0" and "(12, 6) \<notin> readonly sh0"
    and "(13, 6) \<notin> readonly sh0" and "(14, 6) \<notin> readonly sh0"
    and "wb' = wb1[k := (fst (wb1 ! k),
            sh0\<lparr>cells := (cells sh0)
               ((11, 6) \<mapsto> Number (of_int (previsao a)),
                (12, 6) \<mapsto> Number (of_int (previsao b)),
                (13, 6) \<mapsto> Number (of_int (previsao c)),
                (14, 6) \<mapsto> Number (of_int (previsao d)))\<rparr>)]"
  shows "escrever L disk [a, b, c, d] =
     ((Print Escrevendo # LoadWorkbook # tr1 @
         [SetCell 11 6 (previsao a), Print (ValorSalvo (previsao a) (data a) 11),
          SetCell 12 6 (previsao b), Print (ValorSalvo (previsao b) (data b) 12),
          SetCell 13 6 (previsao c), Print (ValorSalvo (previsao c) (data c) 13),
          SetCell 14 6 (previsao d), Print (ValorSalvo (previsao d) (data d) 14)]) @
       Save wb' #
         (case fst (save L wb' disk) of
            None \<Rightarrow> [Print (Sucesso 4)]
          | Some e \<Rightarrow> [Print (ErroEscrever e), Print NaoSalvas]),
      (case fst (save L wb' disk) of None \<Rightarrow> EndSaved | Some e \<Rightarrow> EndNotSaved e),
      snd (save L wb' disk))"
proof -
  obtain r disk' where s: "save L wb' disk = (r, disk')"
    by (cases "save L wb' disk") auto
  show ?thesis
    using assms(1-6) s unfolding assms(7)
    by (cases r)
      (simp_all add: escrever_def escrever_celulas_four linhas_alvo_def Let_def
        del: escrever_celulas.simps)
qed




lemmas sample_writer_simps = find_sheet.simps sample_title_def sheet_titles_def sheet_cell_def
  locked_lib_def clash_wb_def merged_wb_def sample_wb_def


lemma saves_Nil_iff: "saves tr = [] \<longleftrightarrow> (\<forall>wb. Save wb \<notin> set tr)"
  by (induction tr) (auto simp: saves_def split: event.splits)

lemma writes_Nil_iff: "writes tr = [] \<longleftrightarrow> (\<forall>r c v. SetCell r c v \<notin> set tr)"
  by (induction tr) (auto simp: writes_def split: event.splits)

lemma escrever_celulas_no_save: "saves (fst (escrever_celulas i ps sh)) = []"
  using escrever_celulas_trace [of i ps sh] by (auto simp: saves_Nil_iff)

lemma treinar_quiet: "saves (fst (treinar L y)) = [] \<and> writes (fst (treinar L y)) = []"
  by (simp add: treinar_def saves_def writes_def split: sum.splits)

lemma prever_quiet: "saves (fst (prever L m y)) = [] \<and> writes (fst (prever L m y)) = []"
  using prever_trace [of L m y] by (auto simp: saves_Nil_iff writes_Nil_iff)

lemma preparar_quiet: "saves (fst (preparar L df)) = [] \<and> writes (fst (preparar L df)) = []"
  using preparar_trace [of L df] by (auto simp: saves_Nil_iff writes_Nil_iff)

lemma escrever_single_save:
  "case escrever L disk pf of (tr, out, disk') \<Rightarrow>
     (saves tr = [] \<and> disk' = disk \<and> out \<noteq> EndSaved) \<or>
     (\<exists>pre post wb0 tr1 wb1 k sh0 v0 v1 v2 v3 wb.
        load_workbook L disk = Inr wb0 \<and> selecionar_aba L wb0 = (tr1, wb1, k, sh0) \<and>
        k < length wb1 \<and> snd (wb1 ! k) = sh0 \<and>
        wb = wb1[k := (fst (wb1 ! k),
               sh0\<lparr>cells := (cells sh0)
                  ((11, 6) \<mapsto> Number (of_int v0), (12, 6) \<mapsto> Number (of_int v1),
                   (13, 6) \<mapsto> Number (of_int v2), (14, 6) \<mapsto> Number (of_int v3))\<rparr>)] \<and>
        tr = pre @ Save wb # post \<and> saves pre = [] \<and> saves post = [] \<and>
        writes pre = [((11, 6), v0), ((12, 6), v1), ((13, 6), v2), ((14, 6), v3)] \<and>
        writes post = [] \<and> disk' = snd (save L wb disk) \<and>
        out = (case fst (save L wb disk) of None \<Rightarrow> EndSaved | Some e \<Rightarrow> EndNotSaved e))"
proof (cases "length pf = length linhas_alvo")
  case False
  then show ?thesis
    by (simp add: escrever_def saves_def)
next
  case len: True
  then have "length pf = 4"
    by (simp add: linhas_alvo_def)
  then obtain a b c d where pf: "pf = [a, b, c, d]"
    using length_four by blast
  show ?thesis
  proof (cases "load_workbook L disk")
    case (Inl e)
    with len show ?thesis
      by (simp add: escrever_def saves_def)
  next
    case (Inr wb0)
    obtain tr1 wb1 k sh0 where sel: "selecionar_aba L wb0 = (tr1, wb1, k, sh0)"
      by (cases "selecionar_aba L wb0") auto
    note sp = selecionar_aba_props [OF sel]
    obtain tr2 r where c: "escrever_celulas 0 pf sh0 = (tr2, r)"
      by (cases "escrever_celulas 0 pf sh0") auto
    have s2: "saves tr2 = []"
      using escrever_celulas_no_save [of 0 pf sh0] c by simp
    show ?thesis
    proof (cases r)
      case (Inl e)
      with len Inr sel c s2 sp show ?thesis
        by (simp add: escrever_def saves_append) (simp add: saves_def)
    next
      case r: (Inr sh')
      have w: "(11, 6) \<notin> readonly sh0" "(12, 6) \<notin> readonly sh0"
          "(13, 6) \<notin> readonly sh0" "(14, 6) \<notin> readonly sh0"
        using c r unfolding pf escrever_celulas_four by (auto split: if_splits)
      let ?wb = "wb1[k := (fst (wb1 ! k),
            sh0\<lparr>cells := (cells sh0)
               ((11, 6) \<mapsto> Number (of_int (previsao a)),
                (12, 6) \<mapsto> Number (of_int (previsao b)),
                (13, 6) \<mapsto> Number (of_int (previsao c)),
                (14, 6) \<mapsto> Number (of_int (previsao d)))\<rparr>)]"
      let ?pre = "Print Escrevendo # LoadWorkbook # tr1 @
         [SetCell 11 6 (previsao a), Print (ValorSalvo (previsao a) (data a) 11),
          SetCell 12 6 (previsao b), Print (ValorSalvo (previsao b) (data b) 12),
          SetCell 13 6 (previsao c), Print (ValorSalvo (previsao c) (data c) 13),
          SetCell 14 6 (previsao d), Print (ValorSalvo (previsao d) (data d) 14)]"
      let ?post = "case fst (save L ?wb disk) of
            None \<Rightarrow> [Print (Sucesso 4)]
          | Some e \<Rightarrow> [Print (ErroEscrever e), Print NaoSalvas]"
      let ?out = "case fst (save L ?wb disk) of None \<Rightarrow> EndSaved | Some e \<Rightarrow> EndNotSaved e"
      have e: "escrever L disk pf = (?pre @ Save ?wb # ?post, ?out, snd (save L ?wb disk))"
        unfolding pf by (rule escrever_four [OF Inr sel w]) simp
      have 1: "k < length wb1" and 2: "snd (wb1 ! k) = sh0"
        using sp by simp_all
      have 3: "saves ?pre = []"
        using sp by (simp add: saves_def)
      have 4: "saves ?post = []"
        by (simp add: saves_def split: option.splits)
      have 5: "writes ?pre = [((11, 6), previsao a), ((12, 6), previsao b),
                              ((13, 6), previsao c), ((14, 6), previsao d)]"
        using sp by (simp add: writes_def)
      have 6: "writes ?post = []"
        by (simp add: writes_def split: option.splits)
      show ?thesis
        unfolding e
        apply (simp only: prod.case)
        apply (rule disjI2)
        apply (rule exI [of _ ?pre], rule exI [of _ ?post], rule exI [of _ wb0],
            rule exI [of _ tr1], rule exI [of _ wb1], rule exI [of _ k], rule exI [of _ sh0],
            rule exI [of _ "previsao a"], rule exI [of _ "previsao b"],
            rule exI [of _ "previsao c"], rule exI [of _ "previsao d"], rule exI [of _ ?wb])
        apply (intro conjI refl Inr sel 1 2 3 4 5 6)
        done
    qed
  qed
qed

lemma single_save_prefix:
  assumes "saves a = []" and "writes a = []"
    and "(saves tr = [] \<and> disk' = disk \<and> out \<noteq> EndSaved) \<or>
     (\<exists>pre post wb0 tr1 wb1 k sh0 v0 v1 v2 v3 wb.
        load_workbook L disk = Inr wb0 \<and> selecionar_aba L wb0 = (tr1, wb1, k, sh0) \<and>
        k < length wb1 \<and> snd (wb1 ! k) = sh0 \<and>
        wb = wb1[k := (fst (wb1 ! k),
               sh0\<lparr>cells := (cells sh0)
                  ((11, 6) \<mapsto> Number (of_int v0), (12, 6) \<mapsto> Number (of_int v1),
                   (13, 6) \<mapsto> Number (of_int v2), (14, 6) \<mapsto> Number (of_int v3))\<rparr>)] \<and>
        tr = pre @ Save wb # post \<and> saves pre = [] \<and> saves post = [] \<and>
        writes pre = [((11, 6), v0), ((12, 6), v1), ((13, 6), v2), ((14, 6), v3)] \<and>
        writes post = [] \<and> disk' = snd (save L wb disk) \<and>
        out = (case fst (save L wb disk) of None \<Rightarrow> EndSaved | Some e \<Rightarrow> EndNotSaved e))"
  shows "(saves (a @ tr) = [] \<and> disk' = disk \<and> out \<noteq> EndSaved) \<or>
     (\<exists>pre post wb0 tr1 wb1 k sh0 v0 v1 v2 v3 wb.
        load_workbook L disk = Inr wb0 \<and> selecionar_aba L wb0 = (tr1, wb1, k, sh0) \<and>
        k < length wb1 \<and> snd (wb1 ! k) = sh0 \<and>
        wb = wb1[k := (fst (wb1 ! k),
               sh0\<lparr>cells := (cells sh0)
                  ((11, 6) \<mapsto> Number (of_int v0), (12, 6) \<mapsto> Number (of_int v1),
                   (13, 6) \<mapsto> Number (of_int v2), (14, 6) \<mapsto> Number (of_int v3))\<rparr>)] \<and>
        (a @ tr) = pre @ Save wb # post \<and> saves pre = [] \<and> saves post = [] \<and>
        writes pre = [((11, 6), v0), ((12, 6), v1), ((13, 6), v2), ((14, 6), v3)] \<and>
        writes post = [] \<and> disk' = snd (save L wb disk) \<and>
        out = (case fst (save L wb disk) of None \<Rightarrow> EndSaved | Some e \<Rightarrow> EndNotSaved e))"
  using assms(3)
proof
  assume "saves tr = [] \<and> disk' = disk \<and> out \<noteq> EndSaved"
  with assms(1) show ?thesis
    by (simp add: saves_append)
next
  assume "\<exists>pre post wb0 tr1 wb1 k sh0 v0 v1 v2 v3 wb.
        load_workbook L disk = Inr wb0 \<and> selecionar_aba L wb0 = (tr1, wb1, k, sh0) \<and>
        k < length wb1 \<and> snd (wb1 ! k) = sh0 \<and>
        wb = wb1[k := (fst (wb1 ! k),
               sh0\<lparr>cells := (cells sh0)
                  ((11, 6) \<mapsto> Number (of_int v0), (12, 6) \<mapsto> Number (of_int v1),
                   (13, 6) \<mapsto> Number (of_int v2), (14, 6) \<mapsto> Number (of_int v3))\<rparr>)] \<and>
        tr = pre @ Save wb # post \<and> saves pre = [] \<and> saves post = [] \<and>
        writes pre = [((11, 6), v0), ((12, 6), v1), ((13, 6), v2), ((14, 6), v3)] \<and>
        writes post = [] \<and> disk' = snd (save L wb disk) \<and>
        out = (case fst (save L wb disk) of None \<Rightarrow> EndSaved | Some e \<Rightarrow> EndNotSaved e)"
  then obtain pre post wb0 tr1 wb1 k sh0 v0 v1 v2 v3 wb where
    h: "load_workbook L disk = Inr wb0" "selecionar_aba L wb0 = (tr1, wb1, k, sh0)"
      "k < length wb1" "snd (wb1 ! k) = sh0"
      "wb = wb1[k := (fst (wb1 ! k),
               sh0\<lparr>cells := (cells sh0)
                  ((11, 6) \<mapsto> Number (of_int v0), (12, 6) \<mapsto> Number (of_int v1),
                   (13, 6) \<mapsto> Number (of_int v2), (14, 6) \<mapsto> Number (of_int v3))\<rparr>)]"
      "tr = pre @ Save wb # post" "saves pre = []" "saves post = []"
      "writes pre = [((11, 6), v0), ((12, 6), v1), ((13, 6), v2), ((14, 6), v3)]"
      "writes post = []" "disk' = snd (save L wb disk)"
      "out = (case fst (save L wb disk) of None \<Rightarrow> EndSaved | Some e \<Rightarrow> EndNotSaved e)"
    by blast
  have 1: "a @ tr = (a @ pre) @ Save wb # post"
    using h(6) by simp
  have 2: "saves (a @ pre) = []"
    using assms(1) h(7) by (simp add: saves_append)
  have 3: "writes (a @ pre) = [((11, 6), v0), ((12, 6), v1), ((13, 6), v2), ((14, 6), v3)]"
    using assms(2) h(9) by (simp add: writes_append)
  show ?thesis
    apply (rule disjI2)
    apply (rule exI [of _ "a @ pre"], rule exI [of _ post], rule exI [of _ wb0],
        rule exI [of _ tr1], rule exI [of _ wb1], rule exI [of _ k], rule exI [of _ sh0],
        rule exI [of _ v0], rule exI [of _ v1], rule exI [of _ v2], rule exI [of _ v3],
        rule exI [of _ wb])
    apply (intro conjI h(1) h(2) h(3) h(4) h(5) 1 2 h(8) 3 h(10) h(11) h(12))
    done
qed

lemma preparar_outcome: "preparar L df = (tr, Inl e) \<Longrightarrow> e \<noteq> EndSaved"
  by (auto simp: preparar_def normalizar_def limpar_def Let_def
      split: option.splits if_splits sum.splits prod.splits)

lemma modelar_single_save:
  "case modelar L disk y of (tr, out, disk') \<Rightarrow>
     (saves tr = [] \<and> disk' = disk \<and> out \<noteq> EndSaved) \<or>
     (\<exists>pre post wb0 tr1 wb1 k sh0 v0 v1 v2 v3 wb.
        load_workbook L disk = Inr wb0 \<and> selecionar_aba L wb0 = (tr1, wb1, k, sh0) \<and>
        k < length wb1 \<and> snd (wb1 ! k) = sh0 \<and>
        wb = wb1[k := (fst (wb1 ! k),
               sh0\<lparr>cells := (cells sh0)
                  ((11, 6) \<mapsto> Number (of_int v0), (12, 6) \<mapsto> Number (of_int v1),
                   (13, 6) \<mapsto> Number (of_int v2), (14, 6) \<mapsto> Number (of_int v3))\<rparr>)] \<and>
        tr = pre @ Save wb # post \<and> saves pre = [] \<and> saves post = [] \<and>
        writes pre = [((11, 6), v0), ((12, 6), v1), ((13, 6), v2), ((14, 6), v3)] \<and>
        writes post = [] \<and> disk' = snd (save L wb disk) \<and>
        out = (case fst (save L wb disk) of None \<Rightarrow> EndSaved | Some e \<Rightarrow> EndNotSaved e))"
proof (cases "treinar L y")
  case (Pair tr2 r2)
  have q2: "saves tr2 = []" "writes tr2 = []"
    using treinar_quiet [of L y] Pair by simp_all
  show ?thesis
  proof (cases r2)
    case (Inl e)
    with Pair treinar_outcome [of L y tr2 e] q2 show ?thesis
      by (simp add: modelar_def)
  next
    case (Inr m)
    obtain tr3 r3 where p: "prever L m y = (tr3, r3)"
      by (cases "prever L m y") auto
    have q3: "saves (tr2 @ tr3) = []" "writes (tr2 @ tr3) = []"
      using prever_quiet [of L m y] p q2 by (simp_all add: saves_append writes_append)
    show ?thesis
    proof (cases r3)
      case (Inl e)
      with prever_outcome [of L m y tr3 e] p have "e \<noteq> EndSaved"
        by auto
      with Pair Inr p Inl q3 show ?thesis
        by (simp add: modelar_def)
    next
      case i: (Inr pf)
      obtain tr4 out disk' where e: "escrever L disk pf = (tr4, out, disk')"
        by (cases "escrever L disk pf") auto
      from escrever_single_save [where L = L and disk = disk and pf = pf] e
      have "(saves tr4 = [] \<and> disk' = disk \<and> out \<noteq> EndSaved) \<or>
     (\<exists>pre post wb0 tr1 wb1 k sh0 v0 v1 v2 v3 wb.
        load_workbook L disk = Inr wb0 \<and> selecionar_aba L wb0 = (tr1, wb1, k, sh0) \<and>
        k < length wb1 \<and> snd (wb1 ! k) = sh0 \<and>
        wb = wb1[k := (fst (wb1 ! k),
               sh0\<lparr>cells := (cells sh0)
                  ((11, 6) \<mapsto> Number (of_int v0), (12, 6) \<mapsto> Number (of_int v1),
                   (13, 6) \<mapsto> Number (of_int v2), (14, 6) \<mapsto> Number (of_int v3))\<rparr>)] \<and>
        tr4 = pre @ Save wb # post \<and> saves pre = [] \<and> saves post = [] \<and>
        writes pre = [((11, 6), v0), ((12, 6), v1), ((13, 6), v2), ((14, 6), v3)] \<and>
        writes post = [] \<and> disk' = snd (save L wb disk) \<and>
        out = (case fst (save L wb disk) of None \<Rightarrow> EndSaved | Some e \<Rightarrow> EndNotSaved e))"
        by simp
      from single_save_prefix [OF q3 this]
      have "(saves ((tr2 @ tr3) @ tr4) = [] \<and> disk' = disk \<and> out \<noteq> EndSaved) \<or>
     (\<exists>pre post wb0 tr1 wb1 k sh0 v0 v1 v2 v3 wb.
        load_workbook L disk = Inr wb0 \<and> selecionar_aba L wb0 = (tr1, wb1, k, sh0) \<and>
        k < length wb1 \<and> snd (wb1 ! k) = sh0 \<and>
        wb = wb1[k := (fst (wb1 ! k),
               sh0\<lparr>cells := (cells sh0)
                  ((11, 6) \<mapsto> Number (of_int v0), (12, 6) \<mapsto> Number (of_int v1),
                   (13, 6) \<mapsto> Number (of_int v2), (14, 6) \<mapsto> Number (of_int v3))\<rparr>)] \<and>
        ((tr2 @ tr3) @ tr4) = pre @ Save wb # post \<and> saves pre = [] \<and> saves post = [] \<and>
        writes pre = [((11, 6), v0), ((12, 6), v1), ((13, 6), v2), ((14, 6), v3)] \<and>
        writes post = [] \<and> disk' = snd (save L wb disk) \<and>
        out = (case fst (save L wb disk) of None \<Rightarrow> EndSaved | Some e \<Rightarrow> EndNotSaved e))" .
      with Pair Inr p i e show ?thesis
        by (simp add: modelar_def)
    qed
  qed
qed

text \<open>
  C9. In every run, whatever the libraries do: either nothing is saved, and then the file
  on disk is the one the run started with and the run does not end as saved; or the trace
  holds exactly one save, the four cell assignments come before it and none after, and
  the workbook saved is the workbook in memory with those assignments in it: the loaded
  workbook, with the target sheet selected or created at position \<open>k\<close>, in which the
  four target cells of that sheet hold the four values assigned. The file on disk is then
  the one that this save left, and the run ends as saved unless the save itself raised.
  So a run that fails anywhere before the save (the sheet cannot be read, no date column,
  unparseable dates, a failed fit, nothing to forecast, a count mismatch, a workbook that
  does not load, a cell that cannot be assigned) saves nothing and leaves the file
  untouched.
\<close>

theorem save_once_after_writes:
  "case run L disk of (tr, out, disk') \<Rightarrow>
     (saves tr = [] \<and> disk' = disk \<and> out \<noteq> EndSaved) \<or>
     (\<exists>pre post wb0 tr1 wb1 k sh0 v0 v1 v2 v3 wb.
        load_workbook L disk = Inr wb0 \<and> selecionar_aba L wb0 = (tr1, wb1, k, sh0) \<and>
        k < length wb1 \<and> snd (wb1 ! k) = sh0 \<and>
        wb = wb1[k := (fst (wb1 ! k),
               sh0\<lparr>cells := (cells sh0)
                  ((11, 6) \<mapsto> Number (of_int v0), (12, 6) \<mapsto> Number (of_int v1),
                   (13, 6) \<mapsto> Number (of_int v2), (14, 6) \<mapsto> Number (of_int v3))\<rparr>)] \<and>
        tr = pre @ Save wb # post \<and> saves pre = [] \<and> saves post = [] \<and>
        writes pre = [((11, 6), v0), ((12, 6), v1), ((13, 6), v2), ((14, 6), v3)] \<and>
        writes post = [] \<and> disk' = snd (save L wb disk) \<and>
        out = (case fst (save L wb disk) of None \<Rightarrow> EndSaved | Some e \<Rightarrow> EndNotSaved e))"
proof (cases "read_excel L disk")
  case (Inl e)
  then show ?thesis
    by (simp add: run_def saves_def)
next
  case (Inr df)
  let ?tr0 = "[ReadExcel, Print (ColunasDetectadas (columns df))]"
  obtain trp r1 where p: "preparar L df = (trp, r1)"
    by (cases "preparar L df") auto
  have q: "saves (?tr0 @ trp) = []" "writes (?tr0 @ trp) = []"
    using preparar_quiet [of L df] p by (simp_all add: saves_def writes_def)
  show ?thesis
  proof (cases r1)
    case (Inl e)
    with preparar_outcome [of L df trp e] p have "e \<noteq> EndSaved"
      by simp
    with Inr p Inl q show ?thesis
      by (simp add: run_def)
  next
    case r: (Inr y)
    obtain tr out disk' where m: "modelar L disk y = (tr, out, disk')"
      by (cases "modelar L disk y") auto
    from modelar_single_save [where L = L and disk = disk and y = y] m
    have "(saves tr = [] \<and> disk' = disk \<and> out \<noteq> EndSaved) \<or>
     (\<exists>pre post wb0 tr1 wb1 k sh0 v0 v1 v2 v3 wb.
        load_workbook L disk = Inr wb0 \<and> selecionar_aba L wb0 = (tr1, wb1, k, sh0) \<and>
        k < length wb1 \<and> snd (wb1 ! k) = sh0 \<and>
        wb = wb1[k := (fst (wb1 ! k),
               sh0\<lparr>cells := (cells sh0)
                  ((11, 6) \<mapsto> Number (of_int v0), (12, 6) \<mapsto> Number (of_int v1),
                   (13, 6) \<mapsto> Number (of_int v2), (14, 6) \<mapsto> Number (of_int v3))\<rparr>)] \<and>
        tr = pre @ Save wb # post \<and> saves pre = [] \<and> saves post = [] \<and>
        writes pre = [((11, 6), v0), ((12, 6), v1), ((13, 6), v2), ((14, 6), v3)] \<and>
        writes post = [] \<and> disk' = snd (save L wb disk) \<and>
        out = (case fst (save L wb disk) of None \<Rightarrow> EndSaved | Some e \<Rightarrow> EndNotSaved e))"
      by simp
    from single_save_prefix [OF q this]
    have "(saves ((?tr0 @ trp) @ tr) = [] \<and> disk' = disk \<and> out \<noteq> EndSaved) \<or>
     (\<exists>pre post wb0 tr1 wb1 k sh0 v0 v1 v2 v3 wb.
        load_workbook L disk = Inr wb0 \<and> selecionar_aba L wb0 = (tr1, wb1, k, sh0) \<and>
        k < length wb1 \<and> snd (wb1 ! k) = sh0 \<and>
        wb = wb1[k := (fst (wb1 ! k),
               sh0\<lparr>cells := (cells sh0)
                  ((11, 6) \<mapsto> Number (of_int v0), (12, 6) \<mapsto> Number (of_int v1),
                   (13, 6) \<mapsto> Number (of_int v2), (14, 6) \<mapsto> Number (of_int v3))\<rparr>)] \<and>
        ((?tr0 @ trp) @ tr) = pre @ Save wb # post \<and> saves pre = [] \<and> saves post = [] \<and>
        writes pre = [((11, 6), v0), ((12, 6), v1), ((13, 6), v2), ((14, 6), v3)] \<and>
        writes post = [] \<and> disk' = snd (save L wb disk) \<and>
        out = (case fst (save L wb disk) of None \<Rightarrow> EndSaved | Some e \<Rightarrow> EndNotSaved e))" .
    with Inr p r m show ?thesis
      by (simp add: run_def)
  qed
qed


theorem save_once_after_writes_witness:
  "saves (fst (run (sample_lib sample_df) merged_wb)) = [] \<and>
   snd (run (sample_lib sample_df) merged_wb) = (EndNotSaved ''AttributeError'', merged_wb) \<and>
   (\<exists>wb. saves (fst (run (sample_lib sample_df) sample_wb)) = [wb] \<and>
         snd (run (sample_lib sample_df) sample_wb) = (EndSaved, wb) \<and>
         sheet_cell wb (str ''graficos'') (11, 6) = Some (Number 284) \<and>
         sheet_cell wb (str ''graficos'') (14, 6) = Some (Number 346))"
proof (intro conjI)
  let ?L = "sample_lib sample_df"
  have never: "fst (save ?L wb d) = None" for wb d
    by (simp add: sample_lib_def)
  have o1: "fst (snd (run ?L merged_wb)) = EndNotSaved ''AttributeError''"
    by (simp add: sample_lib_def sample_df_def sample_frame_simps sample_parse_simps
        sample_run_simps sample_writer_simps Let_def)
  obtain tr out d where r: "run ?L merged_wb = (tr, out, d)"
    by (cases "run ?L merged_wb") auto
  with o1 have out: "out = EndNotSaved ''AttributeError''"
    by simp
  from save_once_after_writes [where L = ?L and disk = merged_wb] r out never
  have "saves tr = [] \<and> d = merged_wb"
    by auto
  with r out show "saves (fst (run ?L merged_wb)) = []"
    and "snd (run ?L merged_wb) = (EndNotSaved ''AttributeError'', merged_wb)"
    by simp_all
  have o2: "fst (snd (run ?L sample_wb)) = EndSaved"
    by (simp add: sample_lib_def sample_df_def sample_frame_simps sample_parse_simps
        sample_run_simps sample_writer_simps Let_def)
  have w2: "writes (fst (run ?L sample_wb)) =
      [((11, 6), 284), ((12, 6), 305), ((13, 6), 326), ((14, 6), 346)]"
    by (simp add: sample_lib_def sample_df_def sample_frame_simps sample_parse_simps
        sample_run_simps sample_writer_simps Let_def writes_def)
  obtain tr' out' d' where r': "run ?L sample_wb = (tr', out', d')"
    by (cases "run ?L sample_wb") auto
  with o2 w2 have out': "out' = EndSaved"
    and wr: "writes tr' = [((11, 6), 284), ((12, 6), 305), ((13, 6), 326), ((14, 6), 346)]"
    by simp_all
  from save_once_after_writes [where L = ?L and disk = sample_wb] r' out'
  obtain pre post wb0 tr1 wb1 k sh0 v0 v1 v2 v3 wb where
    h: "load_workbook ?L sample_wb = Inr wb0" "selecionar_aba ?L wb0 = (tr1, wb1, k, sh0)"
      "wb = wb1[k := (fst (wb1 ! k),
               sh0\<lparr>cells := (cells sh0)
                  ((11, 6) \<mapsto> Number (of_int v0), (12, 6) \<mapsto> Number (of_int v1),
                   (13, 6) \<mapsto> Number (of_int v2), (14, 6) \<mapsto> Number (of_int v3))\<rparr>)]"
      "tr' = pre @ Save wb # post" "saves pre = []" "saves post = []"
      "writes pre = [((11, 6), v0), ((12, 6), v1), ((13, 6), v2), ((14, 6), v3)]"
      "writes post = []" "d' = snd (save ?L wb sample_wb)"
    by auto
  have wb0: "wb0 = sample_wb"
    using h(1) by (simp add: sample_lib_def)
  have "selecionar_aba ?L sample_wb = ([], sample_wb, Suc 0, snd (sample_wb ! Suc 0))"
    by (simp add: selecionar_aba_def sample_wb_def aba_alvo_def str_def)
  with h(2) have sel: "wb1 = sample_wb" "k = Suc 0"
    unfolding wb0 by auto
  have "writes tr' = writes pre"
    using h(4,8) by (simp add: writes_append) (simp add: writes_def)
  with wr h(7) have v: "v0 = 284" "v3 = 346"
    by simp_all
  have sv: "saves tr' = [wb] \<and> d' = wb"
    using h(4,5,6,9) by (simp add: saves_append) (simp add: saves_def sample_lib_def)
  have c1: "sheet_cell wb (str ''graficos'') (11, 6) = Some (Number 284)"
    unfolding h(3) sel v by (simp add: sheet_cell_def sample_wb_def str_def)
  have c4: "sheet_cell wb (str ''graficos'') (14, 6) = Some (Number 346)"
    unfolding h(3) sel v by (simp add: sheet_cell_def sample_wb_def str_def)
  from sv c1 c4 r' out' show "\<exists>wb. saves (fst (run ?L sample_wb)) = [wb] \<and>
         snd (run ?L sample_wb) = (EndSaved, wb) \<and>
         sheet_cell wb (str ''graficos'') (11, 6) = Some (Number 284) \<and>
         sheet_cell wb (str ''graficos'') (14, 6) = Some (Number 346)"
    by simp
qed

subsection \<open>Rows with a null date\<close>

lemma modelar_fits: "Fit y \<in> set (fst (modelar L disk y))"
  by (auto simp: modelar_def treinar_def split: sum.splits prod.splits)

lemma run_fits:
  "read_excel L disk = Inr df \<Longrightarrow> preparar L df = (tr, Inr y) \<Longrightarrow> Fit y \<in> set (fst (run L disk))"
  using modelar_fits [of y L disk] by (auto simp: run_def split: prod.splits)

text \<open>
  C10. Suppose the lenient fallback is taken and does not stop the run. A row whose date
  the lenient parser could not read, and whose quantity is present, is in the cleaned
  series with a null date. The cleaned series is, as a multiset, the rows with a present
  quantity, whatever their date: the cleaning filters on \<^verbatim>\<open>QNT\<close> alone. That series,
  null dates included, is the one handed to the model in every run on that table.
\<close>

theorem null_dated_rows_retained:
  assumes "date_col (lower L) (columns df) = Some c" and "lower L [] = []"
    and "\<exists>v\<in>set (column df c). strict L v = Invalid"
    and "\<exists>v\<in>set (column df c). coerce (lenient L (column df c) v) \<noteq> None"
    and "QNT \<in> set (columns df)"
    and "r \<in> set (rows df)"
    and "coerce (lenient L (column df c) (r c)) = None"
    and "r QNT \<noteq> Blank"
  shows "\<exists>y. preparar L df = ([Print (ParserFlexivel c)], Inr y) \<and>
     (None, r QNT) \<in> set y \<and>
     mset y = filter_mset (\<lambda>p. snd p \<noteq> Blank)
                (mset (map (\<lambda>r. (coerce (lenient L (column df c) (r c)), r QNT)) (rows df))) \<and>
     (\<forall>disk. read_excel L disk = Inr df \<longrightarrow> Fit y \<in> set (fst (run L disk)))"
proof -
  let ?col = "column df c"
  let ?ds = "map (\<lambda>v. coerce (lenient L ?col v)) ?col"
  let ?y = "dropna (sort_values (zip ?ds (column df QNT)))"
  have c: "c \<noteq> []"
    using assms(1,2) by (rule date_col_nonempty)
  have raise: "to_datetime_raise (strict L) ?col = Inl ''ValueError''"
    using assms(3) by (rule to_datetime_raise_fail)
  have p: "preparar L df = ([Print (ParserFlexivel c)], Inr ?y)"
    using assms(1,4,5) c raise
    by (simp add: preparar_def normalizar_def all_null_iff limpar_def)
      (simp add: to_datetime_coerce_def)
  have z: "zip ?ds (column df QNT)
             = map (\<lambda>r. (coerce (lenient L ?col (r c)), r QNT)) (rows df)"
    by (simp add: column_def zip_map_map) (simp add: zip_same_conv_map)
  have "(None, r QNT) \<in> set (zip ?ds (column df QNT))"
    unfolding z using assms(6,7) by force
  then have m: "(None, r QNT) \<in> set ?y"
    using assms(8) by (simp add: dropna_def sort_values_def)
  have ms: "mset ?y = filter_mset (\<lambda>p. snd p \<noteq> Blank)
                (mset (map (\<lambda>r. (coerce (lenient L ?col (r c)), r QNT)) (rows df)))"
    by (simp add: mset_dropna_sort_values z)
  have "Fit ?y \<in> set (fst (run L disk))" if "read_excel L disk = Inr df" for disk
    using that p by (rule run_fits)
  then have f: "\<forall>disk. read_excel L disk = Inr df \<longrightarrow> Fit ?y \<in> set (fst (run L disk))"
    by simp
  show ?thesis
    by (intro exI conjI, rule p, rule m, rule ms, rule f)
qed

theorem null_dated_rows_retained_witness:
  "(None, Number 11) \<in> set
     [(Some (Timestamp 2025 5 1 0), Number 9), (Some (Timestamp 2025 6 15 0), Number 10),
      (None, Number 11)] \<and>
   preparar (sample_lib mixed_df) mixed_df =
     ([Print (ParserFlexivel (str ''Data ref''))],
      Inr [(Some (Timestamp 2025 5 1 0), Number 9), (Some (Timestamp 2025 6 15 0), Number 10),
           (None, Number 11)]) \<and>
   Fit [(Some (Timestamp 2025 5 1 0), Number 9), (Some (Timestamp 2025 6 15 0), Number 10),
        (None, Number 11)] \<in> set (fst (run (sample_lib mixed_df) sample_wb))"
proof -
  let ?L = "sample_lib mixed_df"
  let ?c = "str ''Data ref''"
  let ?r = "row_of [(str ''Data ref'', Text (str ''junho'')), (str ''QNT'', Number 11)]"
  let ?y = "[(Some (Timestamp 2025 5 1 0), Number 9), (Some (Timestamp 2025 6 15 0), Number 10),
             (None, Number 11)]"
  have 1: "date_col (lower ?L) (columns mixed_df) = Some ?c"
    by (simp add: sample_lib_def mixed_df_def sample_frame_simps)
  have 2: "lower ?L [] = []"
    by (simp add: sample_lib_def ascii_lower_def)
  have 3: "\<exists>v\<in>set (column mixed_df ?c). strict ?L v = Invalid"
    by (simp add: sample_lib_def mixed_df_def sample_frame_simps sample_parse_simps)
  have 4: "\<exists>v\<in>set (column mixed_df ?c). coerce (lenient ?L (column mixed_df ?c) v) \<noteq> None"
    by (simp add: sample_lib_def mixed_df_def sample_frame_simps sample_parse_simps)
  have 5: "QNT \<in> set (columns mixed_df)"
    by (simp add: mixed_df_def QNT_def)
  have 6: "?r \<in> set (rows mixed_df)"
    by (simp add: mixed_df_def)
  have 7: "coerce (lenient ?L (column mixed_df ?c) (?r ?c)) = None"
    by (simp add: sample_lib_def sample_frame_simps sample_parse_simps)
  have 8: "?r QNT \<noteq> Blank"
    by (simp add: sample_frame_simps)
  from null_dated_rows_retained [OF 1 2 3 4 5 6 7 8]
  obtain y where p: "preparar ?L mixed_df = ([Print (ParserFlexivel ?c)], Inr y)"
    and m: "(None, ?r QNT) \<in> set y"
    and f: "\<forall>disk. read_excel ?L disk = Inr mixed_df \<longrightarrow> Fit y \<in> set (fst (run ?L disk))"
    by blast
  have e: "preparar ?L mixed_df = ([Print (ParserFlexivel ?c)], Inr ?y)"
    by (simp add: sample_lib_def mixed_df_def sample_frame_simps sample_parse_simps
        preparar_def normalizar_def to_datetime_coerce_def limpar_def dropna_def sort_values_def
        date_key_def stamp_key_def)
  with p have y: "y = ?y"
    by simp
  have "read_excel ?L sample_wb = Inr mixed_df"
    by (simp add: sample_lib_def)
  with f have "Fit y \<in> set (fst (run ?L sample_wb))"
    by blast
  with m p show ?thesis
    unfolding y by (simp add: sample_frame_simps)
qed


end
